theory Spec2Isabelle
  imports Main
begin

section \<open>Data model\<close>

text \<open>
  Times are JavaScript \<open>Date\<close> values: integers, milliseconds since the epoch.
  The operating timezone is a fixed offset \<open>tz\<close> from UTC (local = UTC + tz), in
  milliseconds; daylight saving changes are not modelled.
\<close>

type_synonym ms = int

text \<open>
  A Mongo ObjectId is represented by its 24 digit lowercase hexadecimal string.
  \<open>isMongoId\<close> holds of the strings of 24 hexadecimal characters, which pass
  \<open>validator.isMongoId\<close> and which Mongoose casts to an ObjectId;
  \<open>castObjectId\<close> is that cast, which ignores letter case. The validator also
  lets through 24 characters that start with \<open>0x\<close> or \<open>0h\<close>; Mongoose's cast
  then throws and the handler's \<open>catch\<close> answers with its general error, the
  store unchanged. The model refuses such an id at the check, with the store unchanged
  as well.
\<close>

type_synonym oid = string

definition is_hex :: "char \<Rightarrow> bool" where
  "is_hex c = (c \<in> set ''0123456789abcdefABCDEF'')"

definition isMongoId :: "string \<Rightarrow> bool" where
  "isMongoId s = (length s = 24 \<and> list_all is_hex s)"

definition lower_hex :: "char \<Rightarrow> char" where
  "lower_hex c =
     (if c = CHR ''A'' then CHR ''a'' else if c = CHR ''B'' then CHR ''b''
      else if c = CHR ''C'' then CHR ''c'' else if c = CHR ''D'' then CHR ''d''
      else if c = CHR ''E'' then CHR ''e'' else if c = CHR ''F'' then CHR ''f'' else c)"

definition castObjectId :: "string \<Rightarrow> oid" where
  "castObjectId s = map lower_hex s"

datatype role = Admin | Client

text \<open>
  The user schema: the fields the modelled operations read or write (name, password,
  phone, the reset token and \<open>createdAt\<close> are left out).
\<close>

record user =
  uid :: oid
  email :: string
  role :: role
  activeSessions :: int
  packageExpiry :: "ms option"

text \<open>
  The session schema; \<open>time\<close> is the stored \<open>HH:MM\<close> string. The exercise
  type, \<open>currentBookings\<close>, \<open>createdBy\<close>, the description, the prices and
  \<open>createdAt\<close>, which no modelled operation reads, are left out.
\<close>

record session =
  sid :: oid
  date :: ms
  time :: string
  maxCapacity :: int
  isActive :: bool
  trainer :: oid
  packageDuration :: int

datatype status = Confirmed | Cancelled

text \<open>
  What a \<open>Date\<close> typed field of a document can hold: nothing (\<open>undefined\<close>),
  \<open>null\<close>, a date, or the Invalid Date that arithmetic on \<open>NaN\<close> produces.
\<close>

datatype js_date = Undefined | Null | DateMs ms | InvalidDate

text \<open>
  The booking schema, without \<open>notes\<close>, \<open>packageId\<close> and \<open>createdAt\<close>.
  \<open>canCancel\<close> is a Boolean path that the save hook may set to \<open>null\<close> or
  clear (both \<open>None\<close>; nothing reads the path). \<open>reminderSent\<close> defaults to false; an unset flag and a false one
  are the same to every reader (\<open>$ne: true\<close>, truthiness).
\<close>

record booking =
  bid :: oid
  session :: oid
  client :: oid
  groupSize :: int
  status :: status
  reminderSent :: bool
  canCancel :: "bool option"
  cancellationDeadline :: js_date
  isPackageBooking :: bool
  sessionNumber :: "int option"

text \<open>The three collections of the store.\<close>

record store =
  sessions :: "session list"
  bookings :: "booking list"
  users :: "user list"

text \<open>The authenticated requester, \<open>req.user\<close>.\<close>

record requester =
  rid :: oid
  rrole :: role

section \<open>Store access\<close>

text \<open>\<open>Model.findById\<close>: the document with that id, or \<open>null\<close>.\<close>

definition findSession :: "session list \<Rightarrow> oid \<Rightarrow> session option" where
  "findSession ss i = find (\<lambda>s. sid s = i) ss"

definition findBooking :: "booking list \<Rightarrow> oid \<Rightarrow> booking option" where
  "findBooking bs i = find (\<lambda>b. bid b = i) bs"

definition findUser :: "user list \<Rightarrow> oid \<Rightarrow> user option" where
  "findUser us i = find (\<lambda>u. uid u = i) us"

text \<open>\<open>User.findByIdAndUpdate\<close>: the update applies to the one document with that id.\<close>

fun updateUser :: "oid \<Rightarrow> (user \<Rightarrow> user) \<Rightarrow> user list \<Rightarrow> user list" where
  "updateUser i f [] = []"
| "updateUser i f (u # us) = (if uid u = i then f u # us else u # updateUser i f us)"

text \<open>\<open>Model.findByIdAndDelete\<close>: removes the one document with that id.\<close>

fun deleteSessionById :: "oid \<Rightarrow> session list \<Rightarrow> session list" where
  "deleteSessionById i [] = []"
| "deleteSessionById i (s # ss) = (if sid s = i then ss else s # deleteSessionById i ss)"

fun deleteBookingById :: "oid \<Rightarrow> booking list \<Rightarrow> booking list" where
  "deleteBookingById i [] = []"
| "deleteBookingById i (b # bs) = (if bid b = i then bs else b # deleteBookingById i bs)"

section \<open>Package Accountant\<close>

datatype api_error =
    AuthenticationRequired | AdminAccessRequired
  | AdminsCannotBook | InvalidSessionId | InvalidGroupSize | SessionNotAvailable
  | NotEnoughSpots | ErrorCreatingBooking
  | InvalidBookingId | BookingNotFound | NotAuthorized | CannotCancelWithin24h
  | ErrorDeletingBooking
  | InvalidClientId | ClientNotFound

text \<open>\<open>UserSchema.methods.hasActivePackage\<close>, read for its truth value.\<close>

definition hasActivePackage :: "ms \<Rightarrow> user \<Rightarrow> bool" where
  "hasActivePackage now u =
     (activeSessions u > 0 \<and>
      (case packageExpiry u of None \<Rightarrow> False | Some e \<Rightarrow> now < e))"

definition day_ms :: int where
  "day_ms = 24 * 60 * 60 * 1000"

text \<open>\<open>POST /client/:id/add-package\<close> (behind \<open>requireAdmin\<close>).\<close>

definition add_package :: "ms \<Rightarrow> requester \<Rightarrow> string \<Rightarrow> store \<Rightarrow> (api_error + user) \<times> store" where
  "add_package now req cid st =
     (if rrole req \<noteq> Admin then (Inl AdminAccessRequired, st)
      else if \<not> isMongoId cid then (Inl InvalidClientId, st)
      else case findUser (users st) (castObjectId cid) of
        None \<Rightarrow> (Inl ClientNotFound, st)
      | Some c \<Rightarrow>
          if role c \<noteq> Client then (Inl ClientNotFound, st)
          else
            let upd = (\<lambda>u. u\<lparr>activeSessions := activeSessions u + 8,
                               packageExpiry := Some (now + 90 * day_ms)\<rparr>)
            in (Inr (upd c), st\<lparr>users := updateUser (castObjectId cid) upd (users st)\<rparr>))"

text \<open>\<open>POST /client/:id/reset-package\<close> (behind \<open>requireAdmin\<close>).\<close>

definition reset_package :: "requester \<Rightarrow> string \<Rightarrow> store \<Rightarrow> (api_error + user) \<times> store" where
  "reset_package req cid st =
     (if rrole req \<noteq> Admin then (Inl AdminAccessRequired, st)
      else if \<not> isMongoId cid then (Inl InvalidClientId, st)
      else
        let upd = (\<lambda>u. u\<lparr>activeSessions := 0, packageExpiry := None\<rparr>)
        in case findUser (users st) (castObjectId cid) of
          None \<Rightarrow> (Inl ClientNotFound, st)
        | Some c \<Rightarrow> (Inr (upd c), st\<lparr>users := updateUser (castObjectId cid) upd (users st)\<rparr>))"

section \<open>Cancellation Policy\<close>

text \<open>
  \<open>String.prototype.split\<close> at a one character separator, and \<open>parseInt\<close> on
  the strings the session schema's time validator admits (decimal digits): the value
  of the leading digits, \<open>NaN\<close> (\<open>None\<close>) when there is none. JavaScript's
  \<open>parseInt\<close> also skips white space and reads a sign or a \<open>0x\<close> prefix, which
  no stored time has.
\<close>

fun split_on :: "char \<Rightarrow> string \<Rightarrow> string list" where
  "split_on c [] = [[]]"
| "split_on c (x # xs) =
     (if x = c then [] # split_on c xs
      else case split_on c xs of [] \<Rightarrow> [[x]] | p # ps \<Rightarrow> (x # p) # ps)"

definition is_digit :: "char \<Rightarrow> bool" where
  "is_digit c = (c \<in> set ''0123456789'')"

definition digit_val :: "char \<Rightarrow> int" where
  "digit_val c = int (of_char c) - 48"

definition parseInt :: "string \<Rightarrow> int option" where
  "parseInt s =
     (let ds = takeWhile is_digit s
      in if ds = [] then None else Some (foldl (\<lambda>n c. 10 * n + digit_val c) 0 ds))"

text \<open>
  \<open>const [hours, minutes] = session.time.split(':')\<close> followed by the two
  \<open>parseInt\<close> calls; \<open>None\<close> when either is \<open>NaN\<close> (a missing second part is
  \<open>undefined\<close>, which parses to \<open>NaN\<close>).
\<close>

definition parse_time :: "string \<Rightarrow> (int \<times> int) option" where
  "parse_time t =
     (case split_on CHR '':'' t of
        h # m # _ \<Rightarrow>
          (case parseInt h of
             None \<Rightarrow> None
           | Some hh \<Rightarrow> (case parseInt m of None \<Rightarrow> None | Some mm \<Rightarrow> Some (hh, mm)))
      | _ \<Rightarrow> None)"

text \<open>Midnight of the local calendar day of \<open>t\<close>.\<close>

definition localMidnight :: "ms \<Rightarrow> ms \<Rightarrow> ms" where
  "localMidnight tz t = t - (t + tz) mod day_ms"

text \<open>
  The instant at \<open>h:m:00.000\<close> local time on the local calendar day of \<open>t\<close>: what
  \<open>d.setHours(h, m, 0, 0)\<close> leaves in \<open>d\<close>, and what
  \<open>new Date(d.getFullYear(), d.getMonth(), d.getDate(), h, m, 0, 0)\<close> builds
  (for years from 100 on).
\<close>

definition atLocalTime :: "ms \<Rightarrow> ms \<Rightarrow> int \<Rightarrow> int \<Rightarrow> ms" where
  "atLocalTime tz t h m = localMidnight tz t + h * (60 * 60 * 1000) + m * (60 * 1000)"

text \<open>\<open>BookingSchema.methods.calculateCancellationDeadline\<close>.\<close>

definition calculateCancellationDeadline :: "ms \<Rightarrow> session list \<Rightarrow> booking \<Rightarrow> js_date" where
  "calculateCancellationDeadline tz ss b =
     (case findSession ss (session b) of
        Some s \<Rightarrow>
          (case parse_time (time s) of
             None \<Rightarrow> InvalidDate
           | Some (h, m) \<Rightarrow> DateMs (atLocalTime tz (date s) h m - 24 * 60 * 60 * 1000))
      | None \<Rightarrow> Null)"

text \<open>
  \<open>new Date() < deadline\<close>: a relational comparison converts \<open>null\<close> to 0 and
  is false against \<open>undefined\<close> and against an Invalid Date.
\<close>

definition js_before :: "ms \<Rightarrow> js_date \<Rightarrow> bool" where
  "js_before now d =
     (case d of DateMs t \<Rightarrow> now < t | Null \<Rightarrow> now < 0 | Undefined \<Rightarrow> False
      | InvalidDate \<Rightarrow> False)"

text \<open>\<open>BookingSchema.methods.isCancellable\<close>.\<close>

definition isCancellable :: "ms \<Rightarrow> booking \<Rightarrow> bool" where
  "isCancellable now b = js_before now (cancellationDeadline b)"

text \<open>
  \<open>BookingSchema.pre('save')\<close>. \<open>isNew\<close> is the document's flag. Assigning an
  Invalid Date to the \<open>Date\<close> path fails in Mongoose's cast and leaves the path as
  it was. \<open>canCancel\<close> receives the value of
  \<open>this.cancellationDeadline && new Date() < this.cancellationDeadline\<close>, read
  from the path after the assignment: a Boolean for a date, \<open>null\<close> or nothing
  (both \<open>None\<close>) otherwise.
\<close>

definition pre_save :: "ms \<Rightarrow> session list \<Rightarrow> ms \<Rightarrow> bool \<Rightarrow> booking \<Rightarrow> booking" where
  "pre_save tz ss now isNew b =
     (if isNew then
        let d = calculateCancellationDeadline tz ss b;
            stored = (case d of InvalidDate \<Rightarrow> cancellationDeadline b | _ \<Rightarrow> d)
        in b\<lparr>cancellationDeadline := stored,
             canCancel := (case stored of DateMs t \<Rightarrow> Some (now < t) | _ \<Rightarrow> None)\<rparr>
      else b)"

text \<open>The schema's validators, run by \<open>save\<close>.\<close>

definition valid_booking :: "booking \<Rightarrow> bool" where
  "valid_booking b =
     (1 \<le> groupSize b \<and> groupSize b \<le> 4 \<and>
      (case sessionNumber b of None \<Rightarrow> True | Some n \<Rightarrow> 1 \<le> n \<and> n \<le> 8))"

datatype js_exn = ValidationError | InvalidEmailAddress | TypeError

text \<open>
  \<open>booking.save()\<close> of a new document: validation, the save hook, the insert.
  Returns the saved document and the store.
\<close>

definition save_new_booking :: "ms \<Rightarrow> ms \<Rightarrow> store \<Rightarrow> booking \<Rightarrow> js_exn + (booking \<times> store)" where
  "save_new_booking tz now st b =
     (if valid_booking b then
        let saved = pre_save tz (sessions st) now True b
        in Inr (saved, st\<lparr>bookings := bookings st @ [saved]\<rparr>)
      else Inl ValidationError)"

text \<open>
  \<open>booking.save()\<close> of a stored document whose \<open>reminderSent\<close> was set: the hook
  does nothing (\<open>isNew\<close> is false) and the modified path is written to the document
  with that id.
\<close>

definition save_reminderSent :: "store \<Rightarrow> booking \<Rightarrow> store" where
  "save_reminderSent st b =
     st\<lparr>bookings := map (\<lambda>x. if bid x = bid b then x\<lparr>reminderSent := True\<rparr> else x)
                         (bookings st)\<rparr>"

section \<open>Dispatch Retrier\<close>

text \<open>
  A template is identified by its kind and the booking it was rendered for. The mailer
  records every \<open>transporter.sendMail\<close> call in order, with its outcome (\<open>Inr\<close>
  the message id, \<open>Inl\<close> the error message), and every delay waited, in milliseconds.
\<close>

datatype template =
    BookingConfirmation oid | TrainerNotification oid
  | CancellationNotification oid | SessionReminder oid

record delivery =
  recipient :: string
  content :: template
  outcome :: "string + string"

record mailer =
  outbox :: "delivery list"
  waits :: "nat list"

text \<open>
  The environment of the email service: \<open>validator.isEmail\<close>, and the outcome of the
  k-th \<open>transporter.sendMail\<close> call of the run (counted from 0).
\<close>

record mail_env =
  isEmail :: "string \<Rightarrow> bool"
  sendMail :: "nat \<Rightarrow> string + string"

text \<open>
  The result objects: \<open>{success: true, messageId}\<close>,
  \<open>{success: true, message}\<close>, \<open>{success: false, error}\<close>.
\<close>

datatype send_result = Sent string | Noted string | Failed string

definition success :: "send_result \<Rightarrow> bool" where
  "success r = (case r of Failed _ \<Rightarrow> False | _ \<Rightarrow> True)"

definition exn_message :: "js_exn \<Rightarrow> string" where
  "exn_message e =
     (case e of InvalidEmailAddress \<Rightarrow> ''Invalid email address''
      | ValidationError \<Rightarrow> ''ValidationError'' | TypeError \<Rightarrow> ''TypeError'')"

text \<open>
  The retry loop of \<open>sendEmail\<close>, from \<open>attempt\<close> on. After the loop
  \<open>lastError.message\<close> is read: a \<open>TypeError\<close> when no attempt was made.
\<close>

function attempt_loop ::
  "mail_env \<Rightarrow> string \<Rightarrow> template \<Rightarrow> nat \<Rightarrow> nat \<Rightarrow> string option \<Rightarrow> mailer
     \<Rightarrow> (js_exn + send_result) \<times> mailer" where
  "attempt_loop env to tpl maxRetries attempt lastError m =
     (if attempt \<le> maxRetries then
        (case sendMail env (length (outbox m)) of
           Inr messageId \<Rightarrow>
             (Inr (Sent messageId),
              m\<lparr>outbox := outbox m @ [\<lparr>recipient = to, content = tpl, outcome = Inr messageId\<rparr>]\<rparr>)
         | Inl err \<Rightarrow>
             let m1 = m\<lparr>outbox := outbox m @ [\<lparr>recipient = to, content = tpl, outcome = Inl err\<rparr>]\<rparr>;
                 m2 = (if attempt < maxRetries
                       then m1\<lparr>waits := waits m1 @ [2 ^ attempt * 1000]\<rparr> else m1)
             in attempt_loop env to tpl maxRetries (attempt + 1) (Some err) m2)
      else (case lastError of
              None \<Rightarrow> (Inl TypeError, m)
            | Some err \<Rightarrow> (Inr (Failed err), m)))"
  by pat_completeness auto
termination
  by (relation "measure (\<lambda>(env, to, tpl, maxRetries, attempt, lastError, m). maxRetries + 1 - attempt)")
    auto

text \<open>\<open>sendEmail(to, template, maxRetries = 3)\<close>.\<close>

definition sendEmail ::
  "mail_env \<Rightarrow> string \<Rightarrow> template \<Rightarrow> nat \<Rightarrow> mailer \<Rightarrow> (js_exn + send_result) \<times> mailer" where
  "sendEmail env to tpl maxRetries m =
     (if \<not> isEmail env to then (Inl InvalidEmailAddress, m)
      else attempt_loop env to tpl maxRetries 1 None m)"

definition default_maxRetries :: nat where
  "default_maxRetries = 3"

section \<open>Email service\<close>

text \<open>
  Each function builds its template first, which reads \<open>client.name\<close> and
  \<open>session.date\<close> and so throws on a \<open>null\<close> client or session; every error is
  caught inside the function and returned as a failed result.
\<close>

definition sendBookingConfirmation ::
  "mail_env \<Rightarrow> booking \<Rightarrow> session \<Rightarrow> user option \<Rightarrow> user option \<Rightarrow> mailer
     \<Rightarrow> (send_result \<times> send_result) \<times> mailer" where
  "sendBookingConfirmation env b s cl tr m =
     (case cl of
        None \<Rightarrow> ((Failed (exn_message TypeError), Failed (exn_message TypeError)), m)
      | Some c \<Rightarrow>
          (case sendEmail env (email c) (BookingConfirmation (bid b)) default_maxRetries m of
             (Inl e, m1) \<Rightarrow> ((Failed (exn_message e), Failed (exn_message e)), m1)
           | (Inr clientResult, m1) \<Rightarrow>
               (case tr of
                  None \<Rightarrow> ((clientResult, Noted ''No trainer email sent''), m1)
                | Some t \<Rightarrow>
                    if email t \<noteq> [] \<and> email t \<noteq> email c then
                      (case sendEmail env (email t) (TrainerNotification (bid b))
                              default_maxRetries m1 of
                         (Inl e, m2) \<Rightarrow> ((Failed (exn_message e), Failed (exn_message e)), m2)
                       | (Inr trainerResult, m2) \<Rightarrow> ((clientResult, trainerResult), m2))
                    else ((clientResult, Noted ''No trainer email sent''), m1))))"

definition sendCancellationNotification ::
  "mail_env \<Rightarrow> booking \<Rightarrow> session option \<Rightarrow> user option \<Rightarrow> mailer \<Rightarrow> send_result \<times> mailer" where
  "sendCancellationNotification env b se cl m =
     (case cl of
        None \<Rightarrow> (Failed (exn_message TypeError), m)
      | Some c \<Rightarrow>
          (case se of
             None \<Rightarrow> (Failed (exn_message TypeError), m)
           | Some s \<Rightarrow>
               (case sendEmail env (email c) (CancellationNotification (bid b))
                       default_maxRetries m of
                  (Inl e, m1) \<Rightarrow> (Failed (exn_message e), m1)
                | (Inr r, m1) \<Rightarrow> (r, m1))))"

definition sendSessionReminder ::
  "mail_env \<Rightarrow> booking \<Rightarrow> session \<Rightarrow> user option \<Rightarrow> store \<Rightarrow> mailer
     \<Rightarrow> send_result \<times> store \<times> mailer" where
  "sendSessionReminder env b s cl st m =
     (if reminderSent b then (Noted ''Reminder already sent'', st, m)
      else case cl of
        None \<Rightarrow> (Failed (exn_message TypeError), st, m)
      | Some c \<Rightarrow>
          (case sendEmail env (email c) (SessionReminder (bid b)) default_maxRetries m of
             (Inl e, m1) \<Rightarrow> (Failed (exn_message e), st, m1)
           | (Inr r, m1) \<Rightarrow> (r, if success r then save_reminderSent st b else st, m1)))"

section \<open>Capacity Ledger\<close>

text \<open>\<open>SessionSchema.methods.getAvailableSpots\<close> and \<open>hasCapacity\<close>.\<close>

definition getAvailableSpots :: "store \<Rightarrow> session \<Rightarrow> int" where
  "getAvailableSpots st s =
     (let bs = filter (\<lambda>b. session b = sid s \<and> status b = Confirmed) (bookings st);
          totalBooked = foldl (\<lambda>sum b. sum + groupSize b) 0 bs
      in maxCapacity s - totalBooked)"

definition hasCapacity :: "store \<Rightarrow> session \<Rightarrow> int \<Rightarrow> bool" where
  "hasCapacity st s g = (getAvailableSpots st s \<ge> g)"

text \<open>The body of a booking request.\<close>

record booking_body =
  sessionId :: string
  bodyGroupSize :: int
  bodyIsPackageBooking :: bool
  bodySessionNumber :: "int option"

text \<open>\<open>new Booking({...})\<close> with the schema's defaults; \<open>newId\<close> is the id it is given.\<close>

definition new_booking :: "oid \<Rightarrow> requester \<Rightarrow> booking_body \<Rightarrow> booking" where
  "new_booking newId req body =
     \<lparr>bid = newId, session = castObjectId (sessionId body), client = rid req,
      groupSize = bodyGroupSize body, status = Confirmed, reminderSent = False,
      canCancel = Some True, cancellationDeadline = Undefined,
      isPackageBooking = bodyIsPackageBooking body,
      sessionNumber = (case bodySessionNumber body of
                         None \<Rightarrow> None
                       | Some n \<Rightarrow> if n = 0 then None else Some n)\<rparr>"

text \<open>\<open>POST /booking\<close>.\<close>

definition post_booking ::
  "ms \<Rightarrow> mail_env \<Rightarrow> ms \<Rightarrow> oid \<Rightarrow> requester \<Rightarrow> booking_body \<Rightarrow> store \<Rightarrow> mailer
     \<Rightarrow> (api_error + booking) \<times> store \<times> mailer" where
  "post_booking tz env now newId req body st m =
     (if rrole req = Admin then (Inl AdminsCannotBook, st, m)
      else if \<not> isMongoId (sessionId body) then (Inl InvalidSessionId, st, m)
      else if \<not> (1 \<le> bodyGroupSize body \<and> bodyGroupSize body \<le> 4)
        then (Inl InvalidGroupSize, st, m)
      else case findSession (sessions st) (castObjectId (sessionId body)) of
        None \<Rightarrow> (Inl SessionNotAvailable, st, m)
      | Some s \<Rightarrow>
          if \<not> isActive s then (Inl SessionNotAvailable, st, m)
          else if \<not> hasCapacity st s (bodyGroupSize body) then (Inl NotEnoughSpots, st, m)
          else case save_new_booking tz now st (new_booking newId req body) of
            Inl e \<Rightarrow> (Inl ErrorCreatingBooking, st, m)
          | Inr (saved, st1) \<Rightarrow>
              let st2 = (if bodyIsPackageBooking body then
                           st1\<lparr>users := updateUser (rid req)
                                 (\<lambda>u. u\<lparr>activeSessions := activeSessions u + 1,
                                        packageExpiry :=
                                          Some (now + packageDuration s * 24 * 60 * 60 * 1000)\<rparr>)
                                 (users st1)\<rparr>
                         else st1)
              in case sendBookingConfirmation env saved s (findUser (users st2) (rid req))
                        (findUser (users st) (trainer s)) m of
                   (emailResult, m1) \<Rightarrow> (Inr saved, st2, m1))"



text \<open>\<open>DELETE /booking/:id\<close>. Reading \<open>booking.client._id\<close> of a \<open>null\<close> client
  throws, which the handler's \<open>catch\<close> answers with "Error deleting booking".\<close>

definition delete_booking ::
  "mail_env \<Rightarrow> ms \<Rightarrow> requester \<Rightarrow> string \<Rightarrow> store \<Rightarrow> mailer
     \<Rightarrow> (api_error + unit) \<times> store \<times> mailer" where
  "delete_booking env now req i st m =
     (if \<not> isMongoId i then (Inl InvalidBookingId, st, m)
      else case findBooking (bookings st) (castObjectId i) of
        None \<Rightarrow> (Inl BookingNotFound, st, m)
      | Some b \<Rightarrow>
          let cl = findUser (users st) (client b);
              se = findSession (sessions st) (session b)
          in if rrole req \<noteq> Admin \<and> cl = None then (Inl ErrorDeletingBooking, st, m)
             else if rrole req \<noteq> Admin \<and> client b \<noteq> rid req then (Inl NotAuthorized, st, m)
             else if rrole req \<noteq> Admin \<and> \<not> isCancellable now b
               then (Inl CannotCancelWithin24h, st, m)
             else if isPackageBooking b \<and> cl = None then (Inl ErrorDeletingBooking, st, m)
             else
               let st1 = (if isPackageBooking b then
                            st\<lparr>users := updateUser (client b)
                                  (\<lambda>u. u\<lparr>activeSessions := activeSessions u - 1\<rparr>) (users st)\<rparr>
                          else st)
               in case sendCancellationNotification env b se cl m of
                    (r, m1) \<Rightarrow>
                      (Inr (), st1\<lparr>bookings := deleteBookingById (castObjectId i) (bookings st1)\<rparr>,
                       m1))"

text \<open>The notification loop of \<open>DELETE /session/:id\<close> over the populated bookings.\<close>

fun notify_cancelled :: "mail_env \<Rightarrow> store \<Rightarrow> booking list \<Rightarrow> mailer \<Rightarrow> mailer" where
  "notify_cancelled env st [] m = m"
| "notify_cancelled env st (b # bs) m =
     notify_cancelled env st bs
       (snd (sendCancellationNotification env b (findSession (sessions st) (session b))
               (findUser (users st) (client b)) m))"

text \<open>\<open>DELETE /session/:id\<close> (behind \<open>requireAdmin\<close>).\<close>

definition delete_session ::
  "mail_env \<Rightarrow> requester \<Rightarrow> string \<Rightarrow> store \<Rightarrow> mailer \<Rightarrow> (api_error + unit) \<times> store \<times> mailer" where
  "delete_session env req i st m =
     (if rrole req \<noteq> Admin then (Inl AdminAccessRequired, st, m)
      else if \<not> isMongoId i then (Inl InvalidSessionId, st, m)
      else
        let bs = filter (\<lambda>b. session b = castObjectId i \<and> status b = Confirmed) (bookings st);
            m1 = notify_cancelled env st bs m
        in (Inr (),
            st\<lparr>bookings := filter (\<lambda>b. session b \<noteq> castObjectId i) (bookings st),
               sessions := deleteSessionById (castObjectId i) (sessions st)\<rparr>,
            m1))"

section \<open>Reminder Scheduler\<close>

text \<open>
  The loop over the bookings of one session, each with its populated client. After a
  dispatch the loop reads \<open>booking.client.email\<close> for its log line: with a
  \<open>null\<close> client that throws in the \<open>try\<close> and again in its \<open>catch\<close>, which
  leaves the loop for the handler of the session.
\<close>

fun process_bookings ::
  "mail_env \<Rightarrow> session \<Rightarrow> (booking \<times> user option) list \<Rightarrow> store \<Rightarrow> mailer \<Rightarrow> store \<times> mailer" where
  "process_bookings env s [] st m = (st, m)"
| "process_bookings env s ((b, cl) # rest) st m =
     (case sendSessionReminder env b s cl st m of
        (r, st1, m1) \<Rightarrow>
          (case cl of
             None \<Rightarrow> (st1, m1)
           | Some c \<Rightarrow>
               process_bookings env s rest
                 (if success r then save_reminderSent st1 b else st1) m1))"

text \<open>The body of the loop over the candidate sessions.\<close>

definition remind_session ::
  "ms \<Rightarrow> mail_env \<Rightarrow> ms \<Rightarrow> ms \<Rightarrow> session \<Rightarrow> store \<Rightarrow> mailer \<Rightarrow> store \<times> mailer" where
  "remind_session tz env startWindow endWindow s st m =
     (case parse_time (time s) of
        None \<Rightarrow> (st, m)
      | Some (hours, minutes) \<Rightarrow>
          let sessionDateTime = atLocalTime tz (date s) hours minutes
          in if sessionDateTime \<ge> startWindow \<and> sessionDateTime \<le> endWindow then
               let bs = filter (\<lambda>b. session b = sid s \<and> status b = Confirmed
                                     \<and> reminderSent b \<noteq> True) (bookings st)
               in process_bookings env s
                    (map (\<lambda>b. (b, findUser (users st) (client b))) bs) st m
             else (st, m))"

fun process_sessions ::
  "ms \<Rightarrow> mail_env \<Rightarrow> ms \<Rightarrow> ms \<Rightarrow> session list \<Rightarrow> store \<Rightarrow> mailer \<Rightarrow> store \<times> mailer" where
  "process_sessions tz env startWindow endWindow [] st m = (st, m)"
| "process_sessions tz env startWindow endWindow (s # ss) st m =
     (case remind_session tz env startWindow endWindow s st m of
        (st1, m1) \<Rightarrow> process_sessions tz env startWindow endWindow ss st1 m1)"

definition startWindow :: "ms \<Rightarrow> ms" where
  "startWindow now = (now + 2 * 60 * 60 * 1000) - 7 * 60 * 1000"

definition endWindow :: "ms \<Rightarrow> ms" where
  "endWindow now = (now + 2 * 60 * 60 * 1000) + 8 * 60 * 1000"

text \<open>\<open>sendSessionReminders\<close>: one tick of the scan, at time \<open>now\<close>.\<close>

definition sendSessionReminders ::
  "ms \<Rightarrow> mail_env \<Rightarrow> ms \<Rightarrow> store \<Rightarrow> mailer \<Rightarrow> store \<times> mailer" where
  "sendSessionReminders tz env now st m =
     (let upcomingSessions =
            filter (\<lambda>s. date s \<ge> localMidnight tz (startWindow now)
                       \<and> date s \<le> localMidnight tz (endWindow now) \<and> isActive s)
              (sessions st)
      in process_sessions tz env (startWindow now) (endWindow now) upcomingSessions st m)"

text \<open>The timer: one tick at each of the given times, in order.\<close>

fun run_ticks :: "ms \<Rightarrow> mail_env \<Rightarrow> ms list \<Rightarrow> store \<Rightarrow> mailer \<Rightarrow> store \<times> mailer" where
  "run_ticks tz env [] st m = (st, m)"
| "run_ticks tz env (now # nows) st m =
     (case sendSessionReminders tz env now st m of
        (st1, m1) \<Rightarrow> run_ticks tz env nows st1 m1)"

section \<open>Reachable stores\<close>

text \<open>
  The runs start from a store without bookings whose sessions have distinct ids and
  capacities within the schema's bounds. \<open>interleaved st ps\<close>: the program can
  reach the store \<open>st\<close> with the admissions \<open>ps\<close> past their capacity read and
  before their insert; the read and the insert of an admission are separate steps, and
  any step of another request may fall between them (a cancellation and a session
  deletion are taken as one step each). \<open>reachable_serially st\<close>: the
  store is reached with the requests handled one at a time, each admission running
  from its read to its insert with no other step in between.
\<close>

definition confirmed_total :: "store \<Rightarrow> oid \<Rightarrow> int" where
  "confirmed_total st i =
     sum_list (map groupSize (filter (\<lambda>b. session b = i \<and> status b = Confirmed) (bookings st)))"





section \<open>Calendar dates\<close>

text \<open>
  The number of days from 1970-01-01 to a date of the proleptic Gregorian calendar, and
  the instant of a local date and time of day: the reading of "date and time combined
  into one local timestamp" against which the deadline is stated.
\<close>

definition days_from_civil :: "int \<Rightarrow> int \<Rightarrow> int \<Rightarrow> int" where
  "days_from_civil y mo d =
     (let y' = (if mo \<le> 2 then y - 1 else y);
          era = y' div 400;
          yoe = y' - era * 400;
          doy = (153 * (if mo > 2 then mo - 3 else mo + 9) + 2) div 5 + d - 1;
          doe = yoe * 365 + yoe div 4 - yoe div 100 + doy
      in era * 146097 + doe - 719468)"

definition local_timestamp :: "ms \<Rightarrow> int \<Rightarrow> int \<Rightarrow> int \<Rightarrow> int \<Rightarrow> int \<Rightarrow> ms" where
  "local_timestamp tz y mo d h mi =
     days_from_civil y mo d * day_ms + h * (60 * 60 * 1000) + mi * (60 * 1000) - tz"

text \<open>
  The time of day h:mi written as the session schema stores it: two digits for the
  minutes, two digits for the hour, or one when the hour is below ten.
\<close>

definition digit_char :: "nat \<Rightarrow> char" where
  "digit_char k = ''0123456789'' ! k"

definition two_digits :: "nat \<Rightarrow> string" where
  "two_digits n = [digit_char (n div 10), digit_char (n mod 10)]"

definition clock_string :: "nat \<Rightarrow> nat \<Rightarrow> string" where
  "clock_string h mi = two_digits h @ '':'' @ two_digits mi"

definition short_clock_string :: "nat \<Rightarrow> nat \<Rightarrow> string" where
  "short_clock_string h mi = digit_char h # '':'' @ two_digits mi"

section \<open>Reminder bookkeeping\<close>

text \<open>
  The successful deliveries of the reminder for booking \<open>i\<close> among the recorded
  transport calls \<open>ds\<close>; whether the store holds booking \<open>i\<close> with
  \<open>reminderSent\<close> true; and when a booking is due at a tick: it is confirmed and its
  session is active with its start (date and time combined) inside the window.
\<close>

definition reminders_delivered :: "delivery list \<Rightarrow> oid \<Rightarrow> nat" where
  "reminders_delivered ds i =
     length (filter (\<lambda>d. content d = SessionReminder i \<and> \<not> isl (outcome d)) ds)"

definition flagged :: "store \<Rightarrow> oid \<Rightarrow> bool" where
  "flagged st i = list_ex (\<lambda>b. bid b = i \<and> reminderSent b) (bookings st)"

definition in_window :: "ms \<Rightarrow> ms \<Rightarrow> session \<Rightarrow> bool" where
  "in_window tz now s =
     (case parse_time (time s) of
        None \<Rightarrow> False
      | Some (h, mi) \<Rightarrow>
          startWindow now \<le> atLocalTime tz (date s) h mi
          \<and> atLocalTime tz (date s) h mi \<le> endWindow now)"

definition due :: "ms \<Rightarrow> ms \<Rightarrow> store \<Rightarrow> booking \<Rightarrow> bool" where
  "due tz now st b =
     (status b = Confirmed
      \<and> list_ex (\<lambda>s. sid s = session b \<and> isActive s \<and> in_window tz now s) (sessions st))"

text \<open>
  Two stores that differ at most in \<open>reminderSent\<close> flags set to true, and what a run
  of dispatches from \<open>(st, m)\<close> to \<open>(st', m')\<close> keeps: every transport call it adds is
  a reminder for a stored, unflagged booking that satisfies \<open>E\<close>; no booking has two
  deliveries; a delivery is followed by the flag, and a new flag comes from a delivery.
\<close>

definition flag_only :: "store \<Rightarrow> store \<Rightarrow> bool" where
  "flag_only st st' =
     (sessions st' = sessions st \<and> users st' = users st
      \<and> list_all2 (\<lambda>b b'. b' = b \<or> b' = b\<lparr>reminderSent := True\<rparr>) (bookings st) (bookings st'))"

definition step_ok :: "(booking \<Rightarrow> bool) \<Rightarrow> store \<Rightarrow> mailer \<Rightarrow> store \<times> mailer \<Rightarrow> bool" where
  "step_ok E st m res =
     (case res of
        (st', m') \<Rightarrow>
          flag_only st st'
          \<and> (\<exists>new. outbox m' = outbox m @ new
                \<and> (\<forall>d\<in>set new. \<exists>b\<in>set (bookings st).
                      content d = SessionReminder (bid b) \<and> E b \<and> \<not> reminderSent b)
                \<and> (\<forall>i. reminders_delivered new i \<le> 1
                      \<and> (reminders_delivered new i = 1 \<longrightarrow> flagged st' i))
                \<and> (\<forall>b'\<in>set (bookings st'). reminderSent b' \<longrightarrow>
                      flagged st (bid b') \<or> reminders_delivered new (bid b') = 1)))"

section \<open>Example data\<close>

text \<open>
  A small store used to run the definitions: one client, one trainer, one session on
  2024-06-10 (stored as midnight UTC) at 18:00, on a server whose timezone is UTC; and
  three mail transports: one that delivers, one that is down, one that fails twice and
  then delivers.
\<close>

definition alice :: user where
  "alice = \<lparr>uid = ''64a000000000000000000c01'', email = ''alice@example.org'', role = Client,
            activeSessions = 0, packageExpiry = None\<rparr>"

definition tom :: user where
  "tom = \<lparr>uid = ''64a000000000000000000a01'', email = ''tom@example.org'', role = Admin,
          activeSessions = 0, packageExpiry = None\<rparr>"

definition as_alice :: requester where
  "as_alice = \<lparr>rid = ''64a000000000000000000c01'', rrole = Client\<rparr>"

definition as_tom :: requester where
  "as_tom = \<lparr>rid = ''64a000000000000000000a01'', rrole = Admin\<rparr>"

definition evening :: session where
  "evening = \<lparr>sid = ''64a000000000000000000501'', date = 1717977600000, time = ''18:00'',
              maxCapacity = 4, isActive = True, trainer = ''64a000000000000000000a01'',
              packageDuration = 90\<rparr>"

definition studio :: store where
  "studio = \<lparr>sessions = [evening], bookings = [], users = [alice, tom]\<rparr>"

definition request_for :: "int \<Rightarrow> bool \<Rightarrow> booking_body" where
  "request_for g p = \<lparr>sessionId = ''64A000000000000000000501'', bodyGroupSize = g,
                       bodyIsPackageBooking = p, bodySessionNumber = None\<rparr>"

definition smtp_up :: mail_env where
  "smtp_up = \<lparr>isEmail = (\<lambda>a. CHR ''@'' \<in> set a), sendMail = (\<lambda>k. Inr ''msg-id'')\<rparr>"

definition smtp_down :: mail_env where
  "smtp_down = \<lparr>isEmail = (\<lambda>a. CHR ''@'' \<in> set a), sendMail = (\<lambda>k. Inl ''ECONNREFUSED'')\<rparr>"

definition smtp_flaky :: mail_env where
  "smtp_flaky = \<lparr>isEmail = (\<lambda>a. CHR ''@'' \<in> set a),
                 sendMail = (\<lambda>k. if k < 2 then Inl ''ETIMEDOUT'' else Inr ''msg-id'')\<rparr>"

definition no_mail :: mailer where
  "no_mail = \<lparr>outbox = [], waits = []\<rparr>"

text \<open>
  The booking alice gets for two places, booked as a package booking on 2024-06-01, and
  the store after it.
\<close>

definition alice_booking :: booking where
  "alice_booking =
     \<lparr>bid = ''64a000000000000000000b01'', session = ''64a000000000000000000501'',
      client = ''64a000000000000000000c01'', groupSize = 2, status = Confirmed,
      reminderSent = False, canCancel = Some True,
      cancellationDeadline = DateMs 1717956000000, isPackageBooking = True,
      sessionNumber = None\<rparr>"

definition booked :: store where
  "booked = \<lparr>sessions = [evening], bookings = [alice_booking],
             users = [alice\<lparr>activeSessions := 1, packageExpiry := Some 1724976000000\<rparr>, tom]\<rparr>"


section \<open>Properties\<close>

lemma findUser_updateUser:
  "findUser (updateUser i f us) j =
     (if j = i then map_option f (findUser us i) else findUser us j)"
  if "\<And>u. uid (f u) = uid u"
  using that by (induction us) (auto simp: findUser_def)

lemma updateUser_twice:
  assumes "\<And>u. uid (f u) = uid u" and "\<And>u. f (f u) = f u"
  shows "updateUser i f (updateUser i f us) = updateUser i f us"
  using assms by (induction us) auto

subsection \<open>Package add and reset\<close>

text \<open>
  C8. For an administrator and an existing client, add-package adds 8 to
  \<open>activeSessions\<close> and sets \<open>packageExpiry\<close> to now + 90 days; reset-package
  then leaves \<open>activeSessions = 0\<close>, \<open>packageExpiry\<close> unset and
  \<open>hasActivePackage\<close> false at any time; and a reset applied to an already reset
  store returns the same response and the same store (for every requester, id and store).
\<close>

theorem add_then_reset_package:
  assumes "rrole req = Admin" and "isMongoId cid"
    and "findUser (users st) (castObjectId cid) = Some c" and "role c = Client"
  shows "fst (add_package now req cid st) =
           Inr (c\<lparr>activeSessions := activeSessions c + 8,
                   packageExpiry := Some (now + 90 * day_ms)\<rparr>)
       \<and> findUser (users (snd (add_package now req cid st))) (castObjectId cid) =
           Some (c\<lparr>activeSessions := activeSessions c + 8,
                    packageExpiry := Some (now + 90 * day_ms)\<rparr>)
       \<and> findUser (users (snd (reset_package req cid (snd (add_package now req cid st)))))
             (castObjectId cid) = Some (c\<lparr>activeSessions := 0, packageExpiry := None\<rparr>)
       \<and> \<not> hasActivePackage t (c\<lparr>activeSessions := 0, packageExpiry := None\<rparr>)
       \<and> reset_package req' cid' (snd (reset_package req' cid' st')) =
           (fst (reset_package req' cid' st'), snd (reset_package req' cid' st'))"
proof -
  let ?add = "\<lambda>u. u\<lparr>activeSessions := activeSessions u + 8,
                       packageExpiry := Some (now + 90 * day_ms)\<rparr>"
  let ?reset = "\<lambda>u::user. u\<lparr>activeSessions := 0, packageExpiry := None\<rparr>"
  have add: "add_package now req cid st =
      (Inr (?add c), st\<lparr>users := updateUser (castObjectId cid) ?add (users st)\<rparr>)"
    using assms by (simp add: add_package_def)
  have found: "findUser (updateUser (castObjectId cid) ?add (users st)) (castObjectId cid)
      = Some (?add c)"
    using assms(3) by (simp add: findUser_updateUser)
  have reset: "reset_package req cid (snd (add_package now req cid st)) =
      (Inr (?reset (?add c)),
       st\<lparr>users := updateUser (castObjectId cid) ?reset
                 (updateUser (castObjectId cid) ?add (users st))\<rparr>)"
    using assms(1,2) found by (simp add: add reset_package_def)
  have found2: "findUser (users (snd (reset_package req cid (snd (add_package now req cid st)))))
      (castObjectId cid) = Some (?reset c)"
    by (simp add: reset findUser_updateUser assms(3))
  have idem: "reset_package req' cid' (snd (reset_package req' cid' st')) =
      (fst (reset_package req' cid' st'), snd (reset_package req' cid' st'))"
    by (auto simp: reset_package_def Let_def findUser_updateUser updateUser_twice
        split: option.splits)
  show ?thesis
    using add found found2 idem by (simp add: hasActivePackage_def)
qed

theorem add_then_reset_package_witness:
  "(let st = \<lparr>sessions = [], bookings = [],
               users = [\<lparr>uid = ''aaaaaaaaaaaaaaaaaaaaaaa1'', email = ''c@example.org'',
                          role = Client, activeSessions = 2, packageExpiry = None\<rparr>]\<rparr>;
        req = \<lparr>rid = ''aaaaaaaaaaaaaaaaaaaaaaa0'', rrole = Admin\<rparr>;
        st1 = snd (add_package 1000 req ''AAAAAAAAAAAAAAAAAAAAAAA1'' st);
        st2 = snd (reset_package req ''AAAAAAAAAAAAAAAAAAAAAAA1'' st1)
    in map activeSessions (users st1) = [10]
     \<and> map packageExpiry (users st1) = [Some 7776001000]
     \<and> map activeSessions (users st2) = [0]
     \<and> map packageExpiry (users st2) = [None]
     \<and> list_all (\<lambda>u. \<not> hasActivePackage 1000 u) (users st2)
     \<and> snd (reset_package req ''AAAAAAAAAAAAAAAAAAAAAAA1'' st2) = st2)"
proof -
  let ?c = "\<lparr>uid = ''aaaaaaaaaaaaaaaaaaaaaaa1'', email = ''c@example.org'',
             role = Client, activeSessions = 2, packageExpiry = None\<rparr>"
  let ?st = "\<lparr>sessions = [], bookings = [], users = [?c]\<rparr>"
  let ?req = "\<lparr>rid = ''aaaaaaaaaaaaaaaaaaaaaaa0'', rrole = Admin\<rparr>"
  have h1: "rrole ?req = Admin" by simp
  have h2: "isMongoId ''AAAAAAAAAAAAAAAAAAAAAAA1''" by (simp add: isMongoId_def is_hex_def)
  have h3: "findUser (users ?st) (castObjectId ''AAAAAAAAAAAAAAAAAAAAAAA1'') = Some ?c"
    by (simp add: findUser_def castObjectId_def lower_hex_def)
  have h4: "role ?c = Client" by simp
  note inst = add_then_reset_package [OF h1 h2 h3 h4, of 1000 1000 ?req
      "''AAAAAAAAAAAAAAAAAAAAAAA1''" "snd (add_package 1000 ?req ''AAAAAAAAAAAAAAAAAAAAAAA1'' ?st)"]
  show ?thesis
    using inst
    by (simp add: add_package_def reset_package_def isMongoId_def is_hex_def findUser_def
        castObjectId_def lower_hex_def hasActivePackage_def day_ms_def Let_def)
qed

subsection \<open>The cancellation deadline\<close>

lemma localMidnight_of_day:
  assumes "local_timestamp tz y mo d 0 0 \<le> t" and "t < local_timestamp tz y mo d 0 0 + day_ms"
  shows "localMidnight tz t = local_timestamp tz y mo d 0 0"
proof -
  define D where "D = days_from_civil y mo d"
  define r where "r = t + tz - D * day_ms"
  have r: "0 \<le> r" "r < day_ms" and t: "t + tz = r + D * day_ms"
    using assms by (simp_all add: local_timestamp_def D_def r_def)
  have "(t + tz) mod day_ms = r"
    unfolding t using r by simp
  then show ?thesis
    using t by (simp add: localMidnight_def local_timestamp_def D_def)
qed

lemma atLocalTime_of_day:
  assumes "local_timestamp tz y mo d 0 0 \<le> t" and "t < local_timestamp tz y mo d 0 0 + day_ms"
  shows "atLocalTime tz t h mi = local_timestamp tz y mo d h mi"
  using localMidnight_of_day [OF assms]
  by (simp add: atLocalTime_def local_timestamp_def)

lemma save_reminderSent_deadlines:
  "map cancellationDeadline (bookings (save_reminderSent st b)) =
     map cancellationDeadline (bookings st)"
  by (simp add: save_reminderSent_def comp_def if_distrib [of cancellationDeadline])

lemma parse_time_1800: "parse_time ''18:00'' = Some (18, 0)"
  by (simp add: parse_time_def parseInt_def is_digit_def digit_val_def)

lemma below_ten:
  "k < 10 \<Longrightarrow> k = 0 \<or> k = 1 \<or> k = 2 \<or> k = 3 \<or> k = 4 \<or> k = 5 \<or> k = 6 \<or> k = 7 \<or> k = 8 \<or> k = (9::nat)"
  by arith

lemma digit_char_props:
  assumes "k < 10"
  shows "is_digit (digit_char k)" and "digit_val (digit_char k) = int k"
    and "digit_char k \<noteq> CHR '':''"
  using below_ten [OF assms]
  by (auto simp: digit_char_def is_digit_def digit_val_def)

lemma parseInt_two_digits:
  assumes "n < 100"
  shows "parseInt (two_digits n) = Some (int n)"
proof -
  have a: "n div 10 < 10" and b: "n mod 10 < 10" using assms by simp_all
  have "int (n div 10) * 10 + int (n mod 10) = int n"
    by (metis mult.commute of_nat_add of_nat_mult of_nat_numeral div_mult_mod_eq)
  then show ?thesis
    using digit_char_props [OF a] digit_char_props [OF b]
    by (simp add: parseInt_def two_digits_def mult.commute)
qed

lemma parseInt_one_digit:
  assumes "k < 10"
  shows "parseInt [digit_char k] = Some (int k)"
  using digit_char_props [OF assms] by (simp add: parseInt_def)

lemma split_two_digits:
  assumes "n < 100"
  shows "split_on CHR '':'' (two_digits n) = [two_digits n]"
proof -
  have a: "n div 10 < 10" and b: "n mod 10 < 10" using assms by simp_all
  show ?thesis
    using digit_char_props(3) [OF a] digit_char_props(3) [OF b]
    by (simp add: two_digits_def)
qed

lemma split_on_append:
  assumes "CHR '':'' \<notin> set xs"
  shows "split_on CHR '':'' (xs @ CHR '':'' # ys) = xs # split_on CHR '':'' ys"
  using assms by (induction xs) (auto split: list.splits)

lemma parse_clock_string:
  assumes "h < 24" and "mi < 60"
  shows "parse_time (clock_string h mi) = Some (int h, int mi)"
proof -
  have h: "h < 100" and m: "mi < 100" using assms by simp_all
  have a: "h div 10 < 10" and b: "h mod 10 < 10" using h by simp_all
  have "CHR '':'' \<notin> set (two_digits h)"
    using digit_char_props(3) [OF a] digit_char_props(3) [OF b]
    by (auto simp: two_digits_def)
  then have "split_on CHR '':'' (clock_string h mi) = [two_digits h, two_digits mi]"
    by (simp add: clock_string_def split_on_append split_two_digits [OF m])
  then show ?thesis
    by (simp add: parse_time_def parseInt_two_digits [OF h] parseInt_two_digits [OF m])
qed

lemma parse_short_clock_string:
  assumes "h < 10" and "mi < 60"
  shows "parse_time (short_clock_string h mi) = Some (int h, int mi)"
proof -
  have m: "mi < 100" using assms by simp
  have "CHR '':'' \<notin> set [digit_char h]"
    using digit_char_props(3) [OF assms(1)] by simp
  from split_on_append [OF this, of "two_digits mi"]
  have "split_on CHR '':'' (short_clock_string h mi) = [[digit_char h], two_digits mi]"
    by (simp add: short_clock_string_def split_two_digits [OF m])
  then show ?thesis
    by (simp add: parse_time_def parseInt_one_digit [OF assms(1)] parseInt_two_digits [OF m])
qed

text \<open>
  C3. The deadline of a booking depends on the session's date and time only: for a
  session whose date falls on the local calendar day y-mo-d and whose time is the
  string written for h:mi (hour below 24 in two digits, or in one digit when below
  ten; minute below 60 in two digits), it is the local timestamp y-mo-d h:mi minus 24
  hours, and the save hook stores that value when the booking is new (for 2024-06-10
  and "18:00", 2024-06-09 18:00 local time). The hook leaves every field of a booking
  that is not new as it is, whatever the sessions are then; the later save that
  records \<open>reminderSent\<close> changes no deadline.
\<close>

theorem deadline_is_local_start_minus_24h:
  assumes "findSession ss (session b) = Some s"
    and "local_timestamp tz y mo d 0 0 \<le> date s"
    and "date s < local_timestamp tz y mo d 0 0 + day_ms"
  shows "(h < 24 \<and> mi < 60
            \<and> (time s = clock_string h mi \<or> (h < 10 \<and> time s = short_clock_string h mi)) \<longrightarrow>
            calculateCancellationDeadline tz ss b =
              DateMs (local_timestamp tz y mo d (int h) (int mi) - 24 * 60 * 60 * 1000)
            \<and> cancellationDeadline (pre_save tz ss now True b) =
              DateMs (local_timestamp tz y mo d (int h) (int mi) - 24 * 60 * 60 * 1000))
       \<and> (y = 2024 \<and> mo = 6 \<and> d = 10 \<and> time s = ''18:00'' \<longrightarrow>
            calculateCancellationDeadline tz ss b = DateMs (local_timestamp tz 2024 6 9 18 0))
       \<and> (findSession ss' (session b') = Some s' \<and> date s' = date s \<and> time s' = time s \<longrightarrow>
            calculateCancellationDeadline tz ss' b' = calculateCancellationDeadline tz ss b)
       \<and> pre_save tz ss'' now' False b'' = b''
       \<and> map cancellationDeadline (bookings (save_reminderSent st0 b0)) =
           map cancellationDeadline (bookings st0)"
proof -
  have gen: "calculateCancellationDeadline tz ss b =
      DateMs (local_timestamp tz y mo d h' mi' - 24 * 60 * 60 * 1000)"
    if "parse_time (time s) = Some (h', mi')" for h' mi'
    using that assms(1) atLocalTime_of_day [OF assms(2,3)]
    by (simp add: calculateCancellationDeadline_def)
  have read: "parse_time (time s) = Some (int h, int mi)"
    if "h < 24" "mi < 60"
      "time s = clock_string h mi \<or> (h < 10 \<and> time s = short_clock_string h mi)"
    using that parse_clock_string [of h mi] parse_short_clock_string [of h mi] by auto
  have calc: "calculateCancellationDeadline tz ss b =
      DateMs (local_timestamp tz y mo d (int h) (int mi) - 24 * 60 * 60 * 1000)"
    if "h < 24" "mi < 60"
      "time s = clock_string h mi \<or> (h < 10 \<and> time s = short_clock_string h mi)"
    using gen [OF read [OF that]] .
  have hook: "cancellationDeadline (pre_save tz ss now True b) =
      DateMs (local_timestamp tz y mo d (int h) (int mi) - 24 * 60 * 60 * 1000)"
    if "h < 24" "mi < 60"
      "time s = clock_string h mi \<or> (h < 10 \<and> time s = short_clock_string h mi)"
    using calc [OF that] by (simp add: pre_save_def Let_def)
  have ex: "calculateCancellationDeadline tz ss b = DateMs (local_timestamp tz 2024 6 9 18 0)"
    if "y = 2024" "mo = 6" "d = 10" "time s = ''18:00''"
    using gen [of 18 0] that parse_time_1800
    by (simp add: local_timestamp_def days_from_civil_def day_ms_def)
  have fn: "calculateCancellationDeadline tz ss' b' = calculateCancellationDeadline tz ss b"
    if "findSession ss' (session b') = Some s'" "date s' = date s" "time s' = time s"
    using that assms(1) by (simp add: calculateCancellationDeadline_def split: option.splits)
  have keep: "pre_save tz ss'' now' False b'' = b''"
    by (simp add: pre_save_def)
  show ?thesis
    using calc hook ex fn keep save_reminderSent_deadlines [of st0 b0] by blast
qed

theorem deadline_is_local_start_minus_24h_witness:
  "(let s = \<lparr>sid = ''5f0000000000000000000001'', date = 1717977600000, time = ''18:00'',
             maxCapacity = 4, isActive = True, trainer = ''5f00000000000000000000a0'',
             packageDuration = 90\<rparr>;
        s' = s\<lparr>time := ''9:05''\<rparr>;
        b = \<lparr>bid = ''5f00000000000000000000b1'', session = ''5f0000000000000000000001'',
             client = ''5f00000000000000000000c1'', groupSize = 2, status = Confirmed,
             reminderSent = False, canCancel = Some True, cancellationDeadline = Undefined,
             isPackageBooking = False, sessionNumber = None\<rparr>
    in clock_string 18 0 = ''18:00'' \<and> short_clock_string 9 5 = ''9:05''
     \<and> clock_string 9 5 = ''09:05''
     \<and> calculateCancellationDeadline 7200000 [s] b = DateMs 1717948800000
     \<and> local_timestamp 7200000 2024 6 9 18 0 = 1717948800000
     \<and> cancellationDeadline (pre_save 7200000 [s] 0 True b) = DateMs 1717948800000
     \<and> calculateCancellationDeadline 7200000 [s'] b = DateMs 1717916700000
     \<and> local_timestamp 7200000 2024 6 9 9 5 = 1717916700000
     \<and> calculateCancellationDeadline 7200000 [s\<lparr>time := ''09:05''\<rparr>] b = DateMs 1717916700000
     \<and> pre_save 7200000 [] 0 False (pre_save 7200000 [s] 0 True b) = pre_save 7200000 [s] 0 True b)"
proof -
  let ?s = "\<lparr>sid = ''5f0000000000000000000001'', date = 1717977600000, time = ''18:00'',
             maxCapacity = 4, isActive = True, trainer = ''5f00000000000000000000a0'',
             packageDuration = 90\<rparr>"
  let ?b = "\<lparr>bid = ''5f00000000000000000000b1'', session = ''5f0000000000000000000001'',
             client = ''5f00000000000000000000c1'', groupSize = 2, status = Confirmed,
             reminderSent = False, canCancel = Some True, cancellationDeadline = Undefined,
             isPackageBooking = False, sessionNumber = None\<rparr>"
  have h1: "findSession [s] (session ?b) = Some s" if "sid s = ''5f0000000000000000000001''" for s
    using that by (simp add: findSession_def)
  have h2: "local_timestamp 7200000 2024 6 10 0 0 \<le> 1717977600000"
    by (simp add: local_timestamp_def days_from_civil_def day_ms_def)
  have h3: "1717977600000 < local_timestamp 7200000 2024 6 10 0 0 + day_ms"
    by (simp add: local_timestamp_def days_from_civil_def day_ms_def)
  have ts: "local_timestamp 7200000 2024 6 9 18 0 = 1717948800000"
    "local_timestamp 7200000 2024 6 9 9 5 = 1717916700000"
    "local_timestamp 7200000 2024 6 10 18 0 - 24 * 60 * 60 * 1000 = 1717948800000"
    "local_timestamp 7200000 2024 6 10 9 5 - 24 * 60 * 60 * 1000 = 1717916700000"
    by (simp_all add: local_timestamp_def days_from_civil_def day_ms_def)
  have cs: "clock_string 18 0 = ''18:00''" "short_clock_string 9 5 = ''9:05''"
    "clock_string 9 5 = ''09:05''"
    by (simp_all add: clock_string_def short_clock_string_def two_digits_def digit_char_def)
  have evening: "calculateCancellationDeadline 7200000 [?s] ?b = DateMs 1717948800000"
    "cancellationDeadline (pre_save 7200000 [?s] 0 True ?b) = DateMs 1717948800000"
    using deadline_is_local_start_minus_24h [where ss = "[?s]" and b = ?b and s = ?s
        and tz = 7200000 and y = 2024 and mo = 6 and d = 10 and h = 18 and mi = 0 and now = 0]
      h1 [of ?s] h2 h3 cs ts
    by simp_all
  have short: "calculateCancellationDeadline 7200000 [?s\<lparr>time := ''9:05''\<rparr>] ?b
      = DateMs 1717916700000"
    using deadline_is_local_start_minus_24h [where ss = "[?s\<lparr>time := ''9:05''\<rparr>]" and b = ?b
        and s = "?s\<lparr>time := ''9:05''\<rparr>" and tz = 7200000 and y = 2024 and mo = 6 and d = 10
        and h = 9 and mi = 5 and now = 0]
      h1 [of "?s\<lparr>time := ''9:05''\<rparr>"] h2 h3 cs ts
    by simp
  have morning: "calculateCancellationDeadline 7200000 [?s\<lparr>time := ''09:05''\<rparr>] ?b
      = DateMs 1717916700000"
    using deadline_is_local_start_minus_24h [where ss = "[?s\<lparr>time := ''09:05''\<rparr>]" and b = ?b
        and s = "?s\<lparr>time := ''09:05''\<rparr>" and tz = 7200000 and y = 2024 and mo = 6 and d = 10
        and h = 9 and mi = 5 and now = 0]
      h1 [of "?s\<lparr>time := ''09:05''\<rparr>"] h2 h3 cs ts
    by simp
  have keep: "pre_save 7200000 [] 0 False (pre_save 7200000 [?s] 0 True ?b)
      = pre_save 7200000 [?s] 0 True ?b"
    using deadline_is_local_start_minus_24h [where ss = "[?s]" and b = ?b and s = ?s
        and tz = 7200000 and y = 2024 and mo = 6 and d = 10 and ss'' = "[]" and now' = 0
        and b'' = "pre_save 7200000 [?s] 0 True ?b"]
      h1 [of ?s] h2 h3
    by simp
  show ?thesis
    unfolding Let_def using cs evening short morning keep ts(1,2) by simp
qed

subsection \<open>Running the definitions\<close>

declare attempt_loop.simps [simp del]

lemma attempt_loop_sent:
  "attempt \<le> maxRetries \<Longrightarrow> sendMail env (length (outbox m)) = Inr messageId \<Longrightarrow>
   attempt_loop env to tpl maxRetries attempt lastError m =
     (Inr (Sent messageId),
      m\<lparr>outbox := outbox m @ [\<lparr>recipient = to, content = tpl, outcome = Inr messageId\<rparr>]\<rparr>)"
  by (subst attempt_loop.simps) simp

lemma attempt_loop_retry:
  "attempt < maxRetries \<Longrightarrow> sendMail env (length (outbox m)) = Inl err \<Longrightarrow>
   attempt_loop env to tpl maxRetries attempt lastError m =
     attempt_loop env to tpl maxRetries (Suc attempt) (Some err)
       (m\<lparr>outbox := outbox m @ [\<lparr>recipient = to, content = tpl, outcome = Inl err\<rparr>],
          waits := waits m @ [2 ^ attempt * 1000]\<rparr>)"
  by (subst attempt_loop.simps) simp

lemma attempt_loop_last:
  "attempt = maxRetries \<Longrightarrow> sendMail env (length (outbox m)) = Inl err \<Longrightarrow>
   attempt_loop env to tpl maxRetries attempt lastError m =
     attempt_loop env to tpl maxRetries (Suc attempt) (Some err)
       (m\<lparr>outbox := outbox m @ [\<lparr>recipient = to, content = tpl, outcome = Inl err\<rparr>]\<rparr>)"
  by (subst attempt_loop.simps) simp

lemma attempt_loop_done:
  "maxRetries < attempt \<Longrightarrow>
   attempt_loop env to tpl maxRetries attempt lastError m =
     (case lastError of None \<Rightarrow> (Inl TypeError, m) | Some err \<Rightarrow> (Inr (Failed err), m))"
  by (subst attempt_loop.simps) simp

lemmas run_mail = sendEmail_def default_maxRetries_def attempt_loop_sent attempt_loop_retry
  attempt_loop_last attempt_loop_done smtp_up_def smtp_down_def no_mail_def
  exn_message_def success_def sendBookingConfirmation_def sendCancellationNotification_def
  sendSessionReminder_def

lemmas run_data = alice_def tom_def as_alice_def as_tom_def evening_def studio_def
  request_for_def alice_booking_def booked_def

lemmas run_store = findSession_def findBooking_def findUser_def

lemmas run_deadline = parse_time_def parseInt_def is_digit_def digit_val_def
  localMidnight_def atLocalTime_def calculateCancellationDeadline_def js_before_def
  isCancellable_def pre_save_def valid_booking_def save_new_booking_def day_ms_def

lemma mongo_ids:
  "isMongoId ''64A000000000000000000501''" "isMongoId ''64a000000000000000000b01''"
  "isMongoId ''64a000000000000000000b02''" "isMongoId ''64a000000000000000000c01''"
  "castObjectId ''64A000000000000000000501'' = ''64a000000000000000000501''"
  "castObjectId ''64a000000000000000000b01'' = ''64a000000000000000000b01''"
  "castObjectId ''64a000000000000000000b02'' = ''64a000000000000000000b02''"
  "castObjectId ''64a000000000000000000c01'' = ''64a000000000000000000c01''"
  by (simp_all add: isMongoId_def is_hex_def castObjectId_def lower_hex_def)

lemma alice_books:
  "post_booking 0 smtp_up 1717200000000 ''64a000000000000000000b01'' as_alice
     (request_for 2 True) studio no_mail =
   (Inr alice_booking, booked,
    \<lparr>outbox = [\<lparr>recipient = ''alice@example.org'',
                 content = BookingConfirmation ''64a000000000000000000b01'',
                 outcome = Inr ''msg-id''\<rparr>,
               \<lparr>recipient = ''tom@example.org'',
                 content = TrainerNotification ''64a000000000000000000b01'',
                 outcome = Inr ''msg-id''\<rparr>],
      waits = []\<rparr>)"
  by (simp add: post_booking_def mongo_ids run_data run_store getAvailableSpots_def
      hasCapacity_def new_booking_def run_deadline Let_def run_mail)

lemma alice_reset:
  "reset_package as_tom ''64a000000000000000000c01'' booked =
     (Inr alice, booked\<lparr>users := [alice, tom]\<rparr>)"
  by (simp add: reset_package_def mongo_ids run_data run_store)

lemma alice_cancels_after_reset:
  "delete_booking smtp_up 1717300000000 as_alice ''64a000000000000000000b01''
     (booked\<lparr>users := [alice, tom]\<rparr>) no_mail =
   (Inr (), studio\<lparr>users := [alice\<lparr>activeSessions := - 1\<rparr>, tom]\<rparr>,
    \<lparr>outbox = [\<lparr>recipient = ''alice@example.org'',
                 content = CancellationNotification ''64a000000000000000000b01'',
                 outcome = Inr ''msg-id''\<rparr>],
      waits = []\<rparr>)"
  by (simp add: delete_booking_def mongo_ids run_data run_store run_deadline Let_def run_mail)

subsection \<open>Cancelling a booking\<close>

lemma delete_booking_refused:
  "fst (delete_booking env now req i st m) \<noteq> Inr () \<Longrightarrow>
   snd (delete_booking env now req i st m) = (st, m)"
  by (auto simp: delete_booking_def Let_def split: option.splits prod.splits if_splits)


text \<open>
  C7. Cancelling a package booking subtracts one from \<open>activeSessions\<close> with no floor
  at zero. alice books a package session (0 to 1), the trainer resets her package (to
  0), she cancels in time: \<open>activeSessions\<close> is then -1.
\<close>

theorem package_cancellation_goes_below_zero:
  "(case post_booking 0 smtp_up 1717200000000 ''64a000000000000000000b01'' as_alice
           (request_for 2 True) studio no_mail of
      (r1, st1, m1) \<Rightarrow>
        (case reset_package as_tom ''64a000000000000000000c01'' st1 of
           (r2, st2) \<Rightarrow>
             (case delete_booking smtp_up 1717300000000 as_alice
                     ''64a000000000000000000b01'' st2 no_mail of
                (r3, st3, m3) \<Rightarrow>
                  map activeSessions (users studio) = [0, 0]
                  \<and> map activeSessions (users st1) = [1, 0]
                  \<and> map activeSessions (users st2) = [0, 0]
                  \<and> r3 = Inr ()
                  \<and> map activeSessions (users st3) = [- 1, 0])))"
  by (simp add: alice_books alice_reset alice_cancels_after_reset)
    (simp add: run_data)



text \<open>
  C10. When the session of a new, valid booking is not found, the booking is stored
  with \<open>cancellationDeadline\<close> \<open>null\<close>; from 1970 on, a booking whose deadline is
  \<open>null\<close> or missing is never cancellable, and the request of a requester who is not
  an administrator to cancel it fails and changes nothing.
\<close>

theorem unset_deadline_never_cancellable:
  assumes "0 \<le> now"
  shows "(findSession (sessions st) (session b) = None \<and> valid_booking b \<longrightarrow>
            save_new_booking tz t st b =
              Inr (b\<lparr>cancellationDeadline := Null, canCancel := None\<rparr>,
                   st\<lparr>bookings := bookings st @
                        [b\<lparr>cancellationDeadline := Null, canCancel := None\<rparr>]\<rparr>))
       \<and> (cancellationDeadline b' = Null \<or> cancellationDeadline b' = Undefined \<longrightarrow>
            \<not> isCancellable now b')
       \<and> (rrole req \<noteq> Admin \<and> findBooking (bookings st') (castObjectId i) = Some b'
            \<and> (cancellationDeadline b' = Null \<or> cancellationDeadline b' = Undefined) \<longrightarrow>
            fst (delete_booking env now req i st' m) \<noteq> Inr ()
            \<and> snd (delete_booking env now req i st' m) = (st', m))"
proof -
  have save: "save_new_booking tz t st b =
      Inr (b\<lparr>cancellationDeadline := Null, canCancel := None\<rparr>,
           st\<lparr>bookings := bookings st @ [b\<lparr>cancellationDeadline := Null, canCancel := None\<rparr>]\<rparr>)"
    if "findSession (sessions st) (session b) = None" "valid_booking b"
    using that
    by (simp add: save_new_booking_def pre_save_def calculateCancellationDeadline_def Let_def)
  have never: "\<not> isCancellable now b'"
    if "cancellationDeadline b' = Null \<or> cancellationDeadline b' = Undefined"
    using that assms by (auto simp: isCancellable_def js_before_def)
  have refused: "fst (delete_booking env now req i st' m) \<noteq> Inr ()"
    if "rrole req \<noteq> Admin" "findBooking (bookings st') (castObjectId i) = Some b'"
      "cancellationDeadline b' = Null \<or> cancellationDeadline b' = Undefined"
    using that never
    by (auto simp: delete_booking_def Let_def split: option.splits prod.splits)
  show ?thesis
    using save never refused delete_booking_refused by blast
qed

theorem unset_deadline_never_cancellable_witness:
  "(let orphan = alice_booking\<lparr>bid := ''64a000000000000000000b02'',
                               session := ''64a000000000000000000502'',
                               cancellationDeadline := Undefined\<rparr>;
        stored = orphan\<lparr>cancellationDeadline := Null, canCancel := None\<rparr>;
        st' = booked\<lparr>bookings := [alice_booking, stored]\<rparr>
    in (0::int) \<le> 1717200000000
     \<and> findSession (sessions booked) (session orphan) = None \<and> valid_booking orphan
     \<and> save_new_booking 0 1717200000000 booked orphan = Inr (stored, st')
     \<and> \<not> isCancellable 1717200000000 stored
     \<and> rrole as_alice \<noteq> Admin
     \<and> findBooking (bookings st') (castObjectId ''64a000000000000000000b02'') = Some stored
     \<and> delete_booking smtp_up 1717200000000 as_alice ''64a000000000000000000b02'' st' no_mail
         = (Inl CannotCancelWithin24h, st', no_mail))"
proof -
  let ?orphan = "alice_booking\<lparr>bid := ''64a000000000000000000b02'',
      session := ''64a000000000000000000502'', cancellationDeadline := Undefined\<rparr>"
  let ?stored = "?orphan\<lparr>cancellationDeadline := Null, canCancel := None\<rparr>"
  let ?st = "booked\<lparr>bookings := [alice_booking, ?stored]\<rparr>"
  have h0: "(0::int) \<le> 1717200000000" by simp
  have h1: "findSession (sessions booked) (session ?orphan) = None"
    by (simp add: run_data run_store)
  have h2: "valid_booking ?orphan" by (simp add: run_data valid_booking_def)
  have h3: "rrole as_alice \<noteq> Admin" by (simp add: run_data)
  have h4: "findBooking (bookings ?st) (castObjectId ''64a000000000000000000b02'') = Some ?stored"
    by (simp add: mongo_ids run_data run_store)
  have h5: "cancellationDeadline ?stored = Null" by simp
  have h6: "bookings booked @ [?stored] = [alice_booking, ?stored]" by (simp add: booked_def)
  have run: "delete_booking smtp_up 1717200000000 as_alice ''64a000000000000000000b02'' ?st no_mail
      = (Inl CannotCancelWithin24h, ?st, no_mail)"
    by (simp add: delete_booking_def mongo_ids run_data run_store run_deadline Let_def)
  note inst = unset_deadline_never_cancellable [OF h0, where st = booked and b = ?orphan
      and b' = ?stored and req = as_alice and st' = ?st and i = "''64a000000000000000000b02''"
      and tz = 0 and t = 1717200000000 and env = smtp_up and m = no_mail]
  show ?thesis
    unfolding Let_def using inst h0 h1 h2 h3 h4 h5 h6 run by simp
qed

subsection \<open>Sending with retry\<close>

lemma attempt_loop_first_success:
  assumes "attempt + k \<le> maxRetries"
    and "\<forall>j<k. sendMail env (length (outbox m) + j) = Inl (err j)"
    and "sendMail env (length (outbox m) + k) = Inr mid"
  shows "attempt_loop env to tpl maxRetries attempt lastError m =
     (Inr (Sent mid),
      m\<lparr>outbox := outbox m
            @ map (\<lambda>j. \<lparr>recipient = to, content = tpl, outcome = Inl (err j)\<rparr>) [0..<k]
            @ [\<lparr>recipient = to, content = tpl, outcome = Inr mid\<rparr>],
        waits := waits m @ map (\<lambda>j. 2 ^ (attempt + j) * 1000) [0..<k]\<rparr>)"
  using assms
proof (induction k arbitrary: attempt lastError m err)
  case 0
  then show ?case by (simp add: attempt_loop_sent)
next
  case (Suc k)
  let ?m = "m\<lparr>outbox := outbox m @ [\<lparr>recipient = to, content = tpl, outcome = Inl (err 0)\<rparr>],
               waits := waits m @ [2 ^ attempt * 1000]\<rparr>"
  have first: "sendMail env (length (outbox m)) = Inl (err 0)"
    using Suc.prems(2) by force
  have step: "attempt_loop env to tpl maxRetries attempt lastError m =
      attempt_loop env to tpl maxRetries (Suc attempt) (Some (err 0)) ?m"
    using Suc.prems(1) first by (simp add: attempt_loop_retry)
  have later: "\<forall>j<k. sendMail env (length (outbox ?m) + j) = Inl (err (Suc j))"
    using Suc.prems(2) by (auto simp: less_Suc_eq_0_disj)
  have last: "sendMail env (length (outbox ?m) + k) = Inr mid"
    using Suc.prems(3) by simp
  have "Suc attempt + k \<le> maxRetries" using Suc.prems(1) by simp
  from Suc.IH [OF this later last] show ?case
    by (simp add: step map_upt_Suc del: upt_Suc)
qed

lemma attempt_loop_all_fail:
  assumes "attempt + k = Suc maxRetries"
    and "\<forall>j<k. sendMail env (length (outbox m) + j) = Inl (err j)"
  shows "attempt_loop env to tpl maxRetries attempt lastError m =
     ((case (if k = 0 then lastError else Some (err (k - 1))) of
         None \<Rightarrow> Inl TypeError | Some e \<Rightarrow> Inr (Failed e)),
      m\<lparr>outbox := outbox m
            @ map (\<lambda>j. \<lparr>recipient = to, content = tpl, outcome = Inl (err j)\<rparr>) [0..<k],
        waits := waits m @ map (\<lambda>j. 2 ^ (attempt + j) * 1000) [0..<k - 1]\<rparr>)"
  using assms
proof (induction k arbitrary: attempt lastError m err)
  case 0
  then show ?case by (simp add: attempt_loop_done split: option.splits)
next
  case (Suc k)
  have first: "sendMail env (length (outbox m)) = Inl (err 0)"
    using Suc.prems(2) by force
  show ?case
  proof (cases "k = 0")
    case True
    let ?m = "m\<lparr>outbox := outbox m @ [\<lparr>recipient = to, content = tpl, outcome = Inl (err 0)\<rparr>]\<rparr>"
    have "attempt = maxRetries" using Suc.prems(1) True by simp
    then have "attempt_loop env to tpl maxRetries attempt lastError m =
        attempt_loop env to tpl maxRetries (Suc attempt) (Some (err 0)) ?m"
      using first by (simp add: attempt_loop_last)
    also have "\<dots> = (Inr (Failed (err 0)), ?m)"
      using \<open>attempt = maxRetries\<close> by (simp add: attempt_loop_done)
    finally show ?thesis using True by simp
  next
    case False
    let ?m = "m\<lparr>outbox := outbox m @ [\<lparr>recipient = to, content = tpl, outcome = Inl (err 0)\<rparr>],
                 waits := waits m @ [2 ^ attempt * 1000]\<rparr>"
    have step: "attempt_loop env to tpl maxRetries attempt lastError m =
        attempt_loop env to tpl maxRetries (Suc attempt) (Some (err 0)) ?m"
      using Suc.prems(1) False first by (simp add: attempt_loop_retry)
    have later: "\<forall>j<k. sendMail env (length (outbox ?m) + j) = Inl (err (Suc j))"
      using Suc.prems(2) by (auto simp: less_Suc_eq_0_disj)
    have "Suc attempt + k = Suc maxRetries" using Suc.prems(1) by simp
    obtain k' where k': "k = Suc k'"
      using False by (cases k) auto
    from Suc.IH [OF \<open>Suc attempt + k = Suc maxRetries\<close> later] show ?thesis
      using False by (simp add: step map_upt_Suc k' del: upt_Suc)
  qed
qed

lemma attempt_loop_outbox_bound:
  "length (outbox (snd (attempt_loop env to tpl maxRetries attempt lastError m)))
     \<le> length (outbox m) + (Suc maxRetries - attempt)"
proof (induction env to tpl maxRetries attempt lastError m rule: attempt_loop.induct)
  case (1 env to tpl maxRetries attempt lastError m)
  show ?case
  proof (cases "attempt \<le> maxRetries")
    case False
    then show ?thesis by (simp add: attempt_loop_done split: option.splits)
  next
    case True
    show ?thesis
    proof (cases "sendMail env (length (outbox m))")
      case (Inr mid)
      then show ?thesis using True by (simp add: attempt_loop_sent)
    next
      case (Inl err)
      from "1.IH" [OF True Inl refl refl] True Inl show ?thesis
        by (subst attempt_loop.simps) (auto simp: Let_def split: if_splits)
    qed
  qed
qed

lemma upt_shift: "map (\<lambda>j. f (Suc j)) [0..<k] = map f [1..<Suc k]"
proof -
  have "map (\<lambda>j. f (Suc j)) [0..<k] = map f (map Suc [0..<k])" by simp
  then show ?thesis by (simp only: map_Suc_upt One_nat_def)
qed

text \<open>
  C6. \<open>sendEmail\<close> calls the transport at most \<open>maxRetries\<close> times (3 by default).
  For a valid address: if the first \<open>k < maxRetries\<close> calls fail and the next one
  succeeds, it returns success with that call's message id after \<open>k + 1\<close> calls,
  having waited \<open>2^a\<close> seconds after each failed attempt \<open>a = 1..k\<close>; if all
  \<open>maxRetries \<ge> 1\<close> calls fail, it returns failure with the last error, having waited
  after every failed attempt but the last.
\<close>

theorem send_email_retries:
  "length (outbox (snd (sendEmail env to tpl maxRetries m))) \<le> length (outbox m) + maxRetries
   \<and> (isEmail env to \<and> k < maxRetries
        \<and> (\<forall>j<k. sendMail env (length (outbox m) + j) = Inl (err j))
        \<and> sendMail env (length (outbox m) + k) = Inr mid \<longrightarrow>
      sendEmail env to tpl maxRetries m =
        (Inr (Sent mid),
         m\<lparr>outbox := outbox m
               @ map (\<lambda>j. \<lparr>recipient = to, content = tpl, outcome = Inl (err j)\<rparr>) [0..<k]
               @ [\<lparr>recipient = to, content = tpl, outcome = Inr mid\<rparr>],
           waits := waits m @ map (\<lambda>a. 2 ^ a * 1000) [1..<Suc k]\<rparr>))
   \<and> (isEmail env to \<and> 1 \<le> maxRetries
        \<and> (\<forall>j<maxRetries. sendMail env (length (outbox m) + j) = Inl (err j)) \<longrightarrow>
      sendEmail env to tpl maxRetries m =
        (Inr (Failed (err (maxRetries - 1))),
         m\<lparr>outbox := outbox m
               @ map (\<lambda>j. \<lparr>recipient = to, content = tpl, outcome = Inl (err j)\<rparr>)
                   [0..<maxRetries],
           waits := waits m @ map (\<lambda>a. 2 ^ a * 1000) [1..<maxRetries]\<rparr>))
   \<and> default_maxRetries = 3"
proof -
  have bound: "length (outbox (snd (sendEmail env to tpl maxRetries m)))
      \<le> length (outbox m) + maxRetries"
    using attempt_loop_outbox_bound [of env to tpl maxRetries 1 None m]
    by (simp add: sendEmail_def)
  have ok: "sendEmail env to tpl maxRetries m =
        (Inr (Sent mid),
         m\<lparr>outbox := outbox m
               @ map (\<lambda>j. \<lparr>recipient = to, content = tpl, outcome = Inl (err j)\<rparr>) [0..<k]
               @ [\<lparr>recipient = to, content = tpl, outcome = Inr mid\<rparr>],
           waits := waits m @ map (\<lambda>a. 2 ^ a * 1000) [1..<Suc k]\<rparr>)"
    if "isEmail env to" "k < maxRetries"
      "\<forall>j<k. sendMail env (length (outbox m) + j) = Inl (err j)"
      "sendMail env (length (outbox m) + k) = Inr mid"
  proof -
    have "1 + k \<le> maxRetries" using that(2) by simp
    from attempt_loop_first_success [OF this that(3,4), of to tpl None] that(1)
      upt_shift [of "\<lambda>a. 2 ^ a * (1000::nat)" k]
    show ?thesis
      by (simp add: sendEmail_def del: upt_Suc)
  qed
  have ko: "sendEmail env to tpl maxRetries m =
        (Inr (Failed (err (maxRetries - 1))),
         m\<lparr>outbox := outbox m
               @ map (\<lambda>j. \<lparr>recipient = to, content = tpl, outcome = Inl (err j)\<rparr>)
                   [0..<maxRetries],
           waits := waits m @ map (\<lambda>a. 2 ^ a * 1000) [1..<maxRetries]\<rparr>)"
    if valid: "isEmail env to" and pos: "1 \<le> maxRetries"
      and down: "\<forall>j<maxRetries. sendMail env (length (outbox m) + j) = Inl (err j)"
  proof -
    obtain n where n: "maxRetries = Suc n" using pos by (cases maxRetries) auto
    have "1 + maxRetries = Suc maxRetries" by simp
    from attempt_loop_all_fail [OF this down, of to tpl None] valid
      upt_shift [of "\<lambda>a. 2 ^ a * (1000::nat)" n]
    show ?thesis
      by (simp add: sendEmail_def n del: upt_Suc)
  qed
  show ?thesis
    using bound ok ko by (simp add: default_maxRetries_def)
qed

theorem send_email_retries_witness:
  "isEmail smtp_flaky ''alice@example.org'' \<and> (2::nat) < default_maxRetries
   \<and> list_all (\<lambda>j. sendMail smtp_flaky (length (outbox no_mail) + j) = Inl ''ETIMEDOUT'') [0, 1]
   \<and> sendMail smtp_flaky (length (outbox no_mail) + 2) = Inr ''msg-id''
   \<and> fst (sendEmail smtp_flaky ''alice@example.org'' (SessionReminder ''b'') default_maxRetries
        no_mail) = Inr (Sent ''msg-id'')
   \<and> map outcome (outbox (snd (sendEmail smtp_flaky ''alice@example.org'' (SessionReminder ''b'')
        default_maxRetries no_mail))) = [Inl ''ETIMEDOUT'', Inl ''ETIMEDOUT'', Inr ''msg-id'']
   \<and> waits (snd (sendEmail smtp_flaky ''alice@example.org'' (SessionReminder ''b'')
        default_maxRetries no_mail)) = [2000, 4000]
   \<and> isEmail smtp_down ''alice@example.org'' \<and> 1 \<le> default_maxRetries
   \<and> list_all (\<lambda>j. sendMail smtp_down (length (outbox no_mail) + j) = Inl ''ECONNREFUSED'')
        [0, 1, 2]
   \<and> fst (sendEmail smtp_down ''alice@example.org'' (SessionReminder ''b'') default_maxRetries
        no_mail) = Inr (Failed ''ECONNREFUSED'')
   \<and> length (outbox (snd (sendEmail smtp_down ''alice@example.org'' (SessionReminder ''b'')
        default_maxRetries no_mail))) = 3
   \<and> waits (snd (sendEmail smtp_down ''alice@example.org'' (SessionReminder ''b'')
        default_maxRetries no_mail)) = [2000, 4000]"
proof -
  have f1: "isEmail smtp_flaky ''alice@example.org''" "isEmail smtp_down ''alice@example.org''"
    by (simp_all add: smtp_flaky_def smtp_down_def)
  have f2: "\<forall>j<2. sendMail smtp_flaky (length (outbox no_mail) + j) = Inl ''ETIMEDOUT''"
    "sendMail smtp_flaky (length (outbox no_mail) + 2) = Inr ''msg-id''"
    "\<forall>j<3. sendMail smtp_down (length (outbox no_mail) + j) = Inl ''ECONNREFUSED''"
    by (simp_all add: smtp_flaky_def smtp_down_def no_mail_def)
  have upt: "[0..<2] = [0, Suc 0]" "[Suc 0..<3] = [Suc 0, 2]" "[0..<3] = [0, Suc 0, 2]"
    by (simp_all add: upt_rec)
  note flaky = send_email_retries [where env = smtp_flaky and to = "''alice@example.org''"
      and tpl = "SessionReminder ''b''" and maxRetries = 3 and m = no_mail and k = 2
      and err = "\<lambda>j. ''ETIMEDOUT''" and mid = "''msg-id''"]
  note down = send_email_retries [where env = smtp_down and to = "''alice@example.org''"
      and tpl = "SessionReminder ''b''" and maxRetries = 3 and m = no_mail and k = 0
      and err = "\<lambda>j. ''ECONNREFUSED''" and mid = "''msg-id''"]
  have r1: "sendEmail smtp_flaky ''alice@example.org'' (SessionReminder ''b'') 3 no_mail =
      (Inr (Sent ''msg-id''),
       no_mail\<lparr>outbox := outbox no_mail
          @ map (\<lambda>j. \<lparr>recipient = ''alice@example.org'', content = SessionReminder ''b'',
                      outcome = Inl ''ETIMEDOUT''\<rparr>) [0..<2]
          @ [\<lparr>recipient = ''alice@example.org'', content = SessionReminder ''b'',
              outcome = Inr ''msg-id''\<rparr>],
         waits := waits no_mail @ map (\<lambda>a. 2 ^ a * 1000) [1..<3]\<rparr>)"
    using flaky f1 f2 by (simp add: default_maxRetries_def)
  have r2: "sendEmail smtp_down ''alice@example.org'' (SessionReminder ''b'') 3 no_mail =
      (Inr (Failed ''ECONNREFUSED''),
       no_mail\<lparr>outbox := outbox no_mail
          @ map (\<lambda>j. \<lparr>recipient = ''alice@example.org'', content = SessionReminder ''b'',
                      outcome = Inl ''ECONNREFUSED''\<rparr>) [0..<3],
         waits := waits no_mail @ map (\<lambda>a. 2 ^ a * 1000) [1..<3]\<rparr>)"
    using down f1 f2 by (simp add: default_maxRetries_def)
  have nm: "outbox no_mail = []" "waits no_mail = []"
    by (simp_all add: no_mail_def)
  show ?thesis
    using f1 f2 by (simp add: default_maxRetries_def r1 r2 upt nm del: upt_Suc)
qed

subsection \<open>Admission\<close>

lemma foldl_groupSize:
  "foldl (\<lambda>sum b. sum + groupSize b) a bs = a + sum_list (map groupSize bs)"
  by (induction bs arbitrary: a) auto

lemma getAvailableSpots_total:
  "getAvailableSpots st s = maxCapacity s - confirmed_total st (sid s)"
  by (simp add: getAvailableSpots_def confirmed_total_def foldl_groupSize)

lemma findSession_Some:
  "findSession ss i = Some s \<Longrightarrow> sid s = i \<and> s \<in> set ss"
  unfolding findSession_def by (induction ss) (auto split: if_splits)

lemma post_booking_full:
  assumes "rrole req \<noteq> Admin" and "isMongoId (sessionId body)"
    and "1 \<le> bodyGroupSize body" and "bodyGroupSize body \<le> 4"
    and "findSession (sessions st) (castObjectId (sessionId body)) = Some s" and "isActive s"
    and "maxCapacity s - confirmed_total st (sid s) < bodyGroupSize body"
  shows "post_booking tz env now newId req body st m = (Inl NotEnoughSpots, st, m)"
  using assms by (simp add: post_booking_def hasCapacity_def getAvailableSpots_total)

lemma post_booking_admitted:
  assumes "rrole req \<noteq> Admin" and "isMongoId (sessionId body)"
    and "1 \<le> bodyGroupSize body" and "bodyGroupSize body \<le> 4"
    and "findSession (sessions st) (castObjectId (sessionId body)) = Some s" and "isActive s"
    and "case bodySessionNumber body of None \<Rightarrow> True | Some n \<Rightarrow> 0 \<le> n \<and> n \<le> 8"
    and "bodyGroupSize body \<le> maxCapacity s - confirmed_total st (sid s)"
  shows "fst (post_booking tz env now newId req body st m) =
           Inr (pre_save tz (sessions st) now True (new_booking newId req body))"
    and "bookings (fst (snd (post_booking tz env now newId req body st m))) =
           bookings st @ [pre_save tz (sessions st) now True (new_booking newId req body)]"
    and "sessions (fst (snd (post_booking tz env now newId req body st m))) = sessions st"
proof -
  have valid: "valid_booking (new_booking newId req body)"
    using assms(3,4,7) by (auto simp: valid_booking_def new_booking_def split: option.splits)
  have cap: "hasCapacity st s (bodyGroupSize body)"
    using assms(8) by (simp add: hasCapacity_def getAvailableSpots_total)
  show "fst (post_booking tz env now newId req body st m) =
           Inr (pre_save tz (sessions st) now True (new_booking newId req body))"
    using assms(1,2,3,4,5,6) valid cap
    by (simp add: post_booking_def save_new_booking_def Let_def split: prod.splits)
  show "bookings (fst (snd (post_booking tz env now newId req body st m))) =
           bookings st @ [pre_save tz (sessions st) now True (new_booking newId req body)]"
    using assms(1,2,3,4,5,6) valid cap
    by (simp add: post_booking_def save_new_booking_def Let_def split: prod.splits)
  show "sessions (fst (snd (post_booking tz env now newId req body st m))) = sessions st"
    using assms(1,2,3,4,5,6) valid cap
    by (simp add: post_booking_def save_new_booking_def Let_def split: prod.splits)
qed

lemma pre_save_fields:
  "bid (pre_save tz ss now n b) = bid b"
  "session (pre_save tz ss now n b) = session b"
  "client (pre_save tz ss now n b) = client b"
  "groupSize (pre_save tz ss now n b) = groupSize b"
  "status (pre_save tz ss now n b) = status b"
  "reminderSent (pre_save tz ss now n b) = reminderSent b"
  "isPackageBooking (pre_save tz ss now n b) = isPackageBooking b"
  by (simp_all add: pre_save_def Let_def)

text \<open>
  C2. For a requester who is not an administrator and a well-formed session id: a group
  size outside 1..4 is answered "Group size must be between 1 and 4"; with a group size
  in range, a missing or an inactive session is answered "Session not available"; with
  an active session (and a session number absent or within 0..8), the request succeeds
  exactly when \<open>maxCapacity\<close> minus the confirmed total is at least the group size,
  and then appends a confirmed booking of that size for that session and requester;
  otherwise it is answered "Not enough spots available" and nothing changes.
\<close>

theorem admit_booking:
  assumes "rrole req \<noteq> Admin" and "isMongoId (sessionId body)"
  shows "(\<not> (1 \<le> bodyGroupSize body \<and> bodyGroupSize body \<le> 4) \<longrightarrow>
            post_booking tz env now newId req body st m = (Inl InvalidGroupSize, st, m))
       \<and> (1 \<le> bodyGroupSize body \<and> bodyGroupSize body \<le> 4
            \<and> findSession (sessions st) (castObjectId (sessionId body)) = None \<longrightarrow>
            post_booking tz env now newId req body st m = (Inl SessionNotAvailable, st, m))
       \<and> (1 \<le> bodyGroupSize body \<and> bodyGroupSize body \<le> 4
            \<and> findSession (sessions st) (castObjectId (sessionId body)) = Some s
            \<and> \<not> isActive s \<longrightarrow>
            post_booking tz env now newId req body st m = (Inl SessionNotAvailable, st, m))
       \<and> (1 \<le> bodyGroupSize body \<and> bodyGroupSize body \<le> 4
            \<and> findSession (sessions st) (castObjectId (sessionId body)) = Some s
            \<and> isActive s
            \<and> (case bodySessionNumber body of None \<Rightarrow> True | Some n \<Rightarrow> 0 \<le> n \<and> n \<le> 8) \<longrightarrow>
            (bodyGroupSize body \<le> maxCapacity s - confirmed_total st (sid s) \<longrightarrow>
               (case post_booking tz env now newId req body st m of
                  (r, st', m') \<Rightarrow>
                    (case r of
                       Inl e \<Rightarrow> False
                     | Inr saved \<Rightarrow>
                         status saved = Confirmed \<and> groupSize saved = bodyGroupSize body
                         \<and> session saved = sid s \<and> client saved = rid req
                         \<and> bookings st' = bookings st @ [saved])))
            \<and> (maxCapacity s - confirmed_total st (sid s) < bodyGroupSize body \<longrightarrow>
                 post_booking tz env now newId req body st m = (Inl NotEnoughSpots, st, m)))"
proof -
  have size: "post_booking tz env now newId req body st m = (Inl InvalidGroupSize, st, m)"
    if "\<not> (1 \<le> bodyGroupSize body \<and> bodyGroupSize body \<le> 4)"
    using that assms by (simp add: post_booking_def)
  have missing: "post_booking tz env now newId req body st m = (Inl SessionNotAvailable, st, m)"
    if "1 \<le> bodyGroupSize body" "bodyGroupSize body \<le> 4"
      "findSession (sessions st) (castObjectId (sessionId body)) = None"
    using that assms by (simp add: post_booking_def)
  have inactive: "post_booking tz env now newId req body st m = (Inl SessionNotAvailable, st, m)"
    if "1 \<le> bodyGroupSize body" "bodyGroupSize body \<le> 4"
      "findSession (sessions st) (castObjectId (sessionId body)) = Some s" "\<not> isActive s"
    using that assms by (simp add: post_booking_def)
  have admitted: "case post_booking tz env now newId req body st m of
        (r, st', m') \<Rightarrow>
          (case r of
             Inl e \<Rightarrow> False
           | Inr saved \<Rightarrow>
               status saved = Confirmed \<and> groupSize saved = bodyGroupSize body
               \<and> session saved = sid s \<and> client saved = rid req
               \<and> bookings st' = bookings st @ [saved])"
    if "1 \<le> bodyGroupSize body" "bodyGroupSize body \<le> 4"
      "findSession (sessions st) (castObjectId (sessionId body)) = Some s" "isActive s"
      "case bodySessionNumber body of None \<Rightarrow> True | Some n \<Rightarrow> 0 \<le> n \<and> n \<le> 8"
      "bodyGroupSize body \<le> maxCapacity s - confirmed_total st (sid s)"
    using post_booking_admitted(1,2) [OF assms that, of tz env now newId m]
      findSession_Some [OF that(3)]
    by (auto simp: pre_save_fields new_booking_def split: prod.splits sum.splits)
  note full = post_booking_full [OF assms, of st s tz env now newId m]
  show ?thesis
    by (intro conjI impI; (elim conjE)?; (rule size missing inactive admitted full; assumption))
qed

lemma booked_total: "confirmed_total booked (sid evening) = 2"
  by (simp add: confirmed_total_def run_data)

theorem admit_booking_witness:
  "rrole as_alice \<noteq> Admin \<and> isMongoId (sessionId (request_for 3 False))
   \<and> findSession (sessions booked) (castObjectId (sessionId (request_for 3 False))) = Some evening
   \<and> isActive evening \<and> maxCapacity evening - confirmed_total booked (sid evening) = 2
   \<and> post_booking 0 smtp_up 1717200000000 ''64a000000000000000000b02'' as_alice
        (request_for 3 False) booked no_mail = (Inl NotEnoughSpots, booked, no_mail)
   \<and> (case post_booking 0 smtp_up 1717200000000 ''64a000000000000000000b02'' as_alice
              (request_for 2 False) booked no_mail of
         (r, st', m') \<Rightarrow>
           map_sum id status r = Inr Confirmed \<and> map groupSize (bookings st') = [2, 2]
           \<and> map session (bookings st') = [sid evening, sid evening])
   \<and> post_booking 0 smtp_up 1717200000000 ''64a000000000000000000b02'' as_alice
        (request_for 5 False) booked no_mail = (Inl InvalidGroupSize, booked, no_mail)
   \<and> post_booking 0 smtp_up 1717200000000 ''64a000000000000000000b02'' as_alice
        (request_for 2 False) (booked\<lparr>sessions := [evening\<lparr>isActive := False\<rparr>]\<rparr>) no_mail
      = (Inl SessionNotAvailable, booked\<lparr>sessions := [evening\<lparr>isActive := False\<rparr>]\<rparr>, no_mail)
   \<and> post_booking 0 smtp_up 1717200000000 ''64a000000000000000000b02'' as_alice
        (request_for 2 False) (booked\<lparr>sessions := []\<rparr>) no_mail
      = (Inl SessionNotAvailable, booked\<lparr>sessions := []\<rparr>, no_mail)"
proof -
  have h1: "rrole as_alice \<noteq> Admin" by (simp add: as_alice_def)
  have h2: "isMongoId (sessionId (request_for g p))" for g p
    by (simp add: request_for_def mongo_ids)
  have found: "findSession (sessions booked) (castObjectId (sessionId (request_for g p)))
      = Some evening" for g p
    by (simp add: request_for_def mongo_ids booked_def findSession_def evening_def)
  have gone: "findSession (sessions (booked\<lparr>sessions := []\<rparr>))
      (castObjectId (sessionId (request_for g p))) = None" for g p
    by (simp add: findSession_def)
  have off: "findSession (sessions (booked\<lparr>sessions := [evening\<lparr>isActive := False\<rparr>]\<rparr>))
      (castObjectId (sessionId (request_for g p))) = Some (evening\<lparr>isActive := False\<rparr>)" for g p
    by (simp add: request_for_def mongo_ids findSession_def evening_def)
  have ev: "isActive evening" "maxCapacity evening = 4" "\<not> isActive (evening\<lparr>isActive := False\<rparr>)"
    by (simp_all add: evening_def)
  have body: "bodyGroupSize (request_for g p) = g" "bodySessionNumber (request_for g p) = None"
    for g p by (simp_all add: request_for_def)
  note full = admit_booking [OF h1 h2 [of 3 False], where st = booked and s = evening
      and tz = 0 and env = smtp_up and now = 1717200000000
      and newId = "''64a000000000000000000b02''" and m = no_mail]
  note fits = admit_booking [OF h1 h2 [of 2 False], where st = booked and s = evening
      and tz = 0 and env = smtp_up and now = 1717200000000
      and newId = "''64a000000000000000000b02''" and m = no_mail]
  note large = admit_booking [OF h1 h2 [of 5 False], where st = booked and s = evening
      and tz = 0 and env = smtp_up and now = 1717200000000
      and newId = "''64a000000000000000000b02''" and m = no_mail]
  note inactive = admit_booking [OF h1 h2 [of 2 False], where st = "booked\<lparr>sessions := [evening\<lparr>isActive := False\<rparr>]\<rparr>"
      and s = "evening\<lparr>isActive := False\<rparr>"
      and tz = 0 and env = smtp_up and now = 1717200000000
      and newId = "''64a000000000000000000b02''" and m = no_mail]
  note missing = admit_booking [OF h1 h2 [of 2 False], where st = "booked\<lparr>sessions := []\<rparr>" and s = evening
      and tz = 0 and env = smtp_up and now = 1717200000000
      and newId = "''64a000000000000000000b02''" and m = no_mail]
  have c1: "post_booking 0 smtp_up 1717200000000 ''64a000000000000000000b02'' as_alice
        (request_for 3 False) booked no_mail = (Inl NotEnoughSpots, booked, no_mail)"
    using full by (simp add: found ev body booked_total)
  have c2: "case post_booking 0 smtp_up 1717200000000 ''64a000000000000000000b02'' as_alice
              (request_for 2 False) booked no_mail of
         (r, st', m') \<Rightarrow>
           map_sum id status r = Inr Confirmed \<and> map groupSize (bookings st') = [2, 2]
           \<and> map session (bookings st') = [sid evening, sid evening]"
  proof -
    have "case post_booking 0 smtp_up 1717200000000 ''64a000000000000000000b02'' as_alice
              (request_for 2 False) booked no_mail of
         (r, st', m') \<Rightarrow>
           (case r of
              Inl e \<Rightarrow> False
            | Inr saved \<Rightarrow>
                status saved = Confirmed \<and> groupSize saved = 2
                \<and> session saved = sid evening \<and> client saved = rid as_alice
                \<and> bookings st' = bookings booked @ [saved])"
      using fits by (auto simp: found ev body booked_total split: prod.splits sum.splits)
    then show ?thesis
      by (auto simp: booked_def alice_booking_def evening_def split: prod.splits sum.splits)
  qed
  have c3: "post_booking 0 smtp_up 1717200000000 ''64a000000000000000000b02'' as_alice
        (request_for 5 False) booked no_mail = (Inl InvalidGroupSize, booked, no_mail)"
    using large by (simp add: body)
  have c4: "post_booking 0 smtp_up 1717200000000 ''64a000000000000000000b02'' as_alice
        (request_for 2 False) (booked\<lparr>sessions := [evening\<lparr>isActive := False\<rparr>]\<rparr>) no_mail
      = (Inl SessionNotAvailable, booked\<lparr>sessions := [evening\<lparr>isActive := False\<rparr>]\<rparr>, no_mail)"
    using inactive off [of 2 False] ev by (simp add: body)
  have c5: "post_booking 0 smtp_up 1717200000000 ''64a000000000000000000b02'' as_alice
        (request_for 2 False) (booked\<lparr>sessions := []\<rparr>) no_mail
      = (Inl SessionNotAvailable, booked\<lparr>sessions := []\<rparr>, no_mail)"
    using missing gone [of 2 False] by (simp add: body)
  show ?thesis
    using h1 h2 found ev booked_total c1 c2 c3 c4 c5 by simp
qed

subsection \<open>The capacity invariant\<close>













subsection \<open>Admissions that interleave\<close>








subsection \<open>What a send adds to the outbox\<close>

lemma attempt_loop_log:
  "\<exists>new. outbox (snd (attempt_loop env to tpl maxRetries attempt lastError m)) = outbox m @ new
     \<and> (\<forall>d\<in>set new. recipient d = to \<and> content d = tpl)
     \<and> length (filter (\<lambda>d. \<not> isl (outcome d)) new) =
         (case fst (attempt_loop env to tpl maxRetries attempt lastError m) of
            Inr (Sent x) \<Rightarrow> 1 | _ \<Rightarrow> 0)
     \<and> (attempt \<le> maxRetries \<longrightarrow> new \<noteq> [])
     \<and> (\<forall>x. fst (attempt_loop env to tpl maxRetries attempt lastError m) \<noteq> Inr (Noted x))"
proof (induction env to tpl maxRetries attempt lastError m rule: attempt_loop.induct)
  case (1 env to tpl maxRetries attempt lastError m)
  show ?case
  proof (cases "attempt \<le> maxRetries")
    case False
    then show ?thesis by (simp add: attempt_loop_done split: option.splits)
  next
    case True
    show ?thesis
    proof (cases "sendMail env (length (outbox m))")
      case (Inr mid)
      then show ?thesis using True by (simp add: attempt_loop_sent)
    next
      case (Inl err)
      let ?m1 = "m\<lparr>outbox := outbox m @ [\<lparr>recipient = to, content = tpl, outcome = Inl err\<rparr>]\<rparr>"
      let ?m2 = "if attempt < maxRetries then ?m1\<lparr>waits := waits ?m1 @ [2 ^ attempt * 1000]\<rparr> else ?m1"
      have step: "attempt_loop env to tpl maxRetries attempt lastError m =
          attempt_loop env to tpl maxRetries (attempt + 1) (Some err) ?m2"
        using True Inl by (subst attempt_loop.simps) (simp add: Let_def)
      from "1.IH" [OF True Inl refl refl] obtain new where new:
        "outbox (snd (attempt_loop env to tpl maxRetries (attempt + 1) (Some err) ?m2))
           = outbox ?m2 @ new"
        "\<forall>d\<in>set new. recipient d = to \<and> content d = tpl"
        "length (filter (\<lambda>d. \<not> isl (outcome d)) new) =
           (case fst (attempt_loop env to tpl maxRetries (attempt + 1) (Some err) ?m2) of
              Inr (Sent x) \<Rightarrow> 1 | _ \<Rightarrow> 0)"
        "\<forall>x. fst (attempt_loop env to tpl maxRetries (attempt + 1) (Some err) ?m2) \<noteq> Inr (Noted x)"
        by blast
      let ?new = "\<lparr>recipient = to, content = tpl, outcome = Inl err\<rparr> # new"
      have "outbox (snd (attempt_loop env to tpl maxRetries attempt lastError m)) = outbox m @ ?new"
        using new(1) by (simp add: step)
      moreover have "\<forall>d\<in>set ?new. recipient d = to \<and> content d = tpl"
        using new(2) by simp
      moreover have "length (filter (\<lambda>d. \<not> isl (outcome d)) ?new) =
         (case fst (attempt_loop env to tpl maxRetries attempt lastError m) of
            Inr (Sent x) \<Rightarrow> 1 | _ \<Rightarrow> 0)"
        using new(3) by (simp add: step)
      moreover have "\<forall>x. fst (attempt_loop env to tpl maxRetries attempt lastError m) \<noteq> Inr (Noted x)"
        using new(4) by (simp add: step)
      ultimately show ?thesis by blast
    qed
  qed
qed

lemma sendEmail_log:
  "\<exists>new. outbox (snd (sendEmail env to tpl default_maxRetries m)) = outbox m @ new
     \<and> (\<forall>d\<in>set new. recipient d = to \<and> content d = tpl)
     \<and> length (filter (\<lambda>d. \<not> isl (outcome d)) new) =
         (case fst (sendEmail env to tpl default_maxRetries m) of Inr (Sent x) \<Rightarrow> 1 | _ \<Rightarrow> 0)
     \<and> (isEmail env to \<longrightarrow> new \<noteq> [])
     \<and> (\<forall>x. fst (sendEmail env to tpl default_maxRetries m) \<noteq> Inr (Noted x))"
proof (cases "isEmail env to")
  case False
  then show ?thesis by (simp add: sendEmail_def)
next
  case True
  from attempt_loop_log [of env to tpl default_maxRetries 1 None m] True show ?thesis
    by (simp add: sendEmail_def default_maxRetries_def)
qed

subsection \<open>Deleting a session\<close>

lemma sendCancellationNotification_log:
  "\<exists>new. outbox (snd (sendCancellationNotification env b se cl m)) = outbox m @ new
     \<and> (\<forall>d\<in>set new. content d = CancellationNotification (bid b))
     \<and> (\<forall>c s. cl = Some c \<and> se = Some s \<and> isEmail env (email c) \<longrightarrow>
           new \<noteq> [] \<and> (\<forall>d\<in>set new. recipient d = email c))"
proof (cases "\<exists>c s. cl = Some c \<and> se = Some s")
  case False
  then show ?thesis
    by (auto simp: sendCancellationNotification_def split: option.splits)
next
  case True
  then obtain c s where cl: "cl = Some c" and se: "se = Some s" by blast
  from sendEmail_log [of env "email c" "CancellationNotification (bid b)" m]
  obtain new where new:
    "outbox (snd (sendEmail env (email c) (CancellationNotification (bid b)) default_maxRetries m))
       = outbox m @ new"
    "\<forall>d\<in>set new. recipient d = email c \<and> content d = CancellationNotification (bid b)"
    "isEmail env (email c) \<longrightarrow> new \<noteq> []"
    by blast
  obtain r m1 where run:
    "sendEmail env (email c) (CancellationNotification (bid b)) default_maxRetries m = (r, m1)"
    by (cases "sendEmail env (email c) (CancellationNotification (bid b)) default_maxRetries m")
  have "outbox (snd (sendCancellationNotification env b se cl m)) = outbox m @ new"
    using new(1) cl se run by (cases r) (simp_all add: sendCancellationNotification_def)
  then show ?thesis using new(2,3) cl se by auto
qed

lemma notify_cancelled_log:
  "\<exists>new. outbox (notify_cancelled env st bs m) = outbox m @ new
     \<and> (\<forall>d\<in>set new. \<exists>b\<in>set bs. content d = CancellationNotification (bid b))
     \<and> (\<forall>b\<in>set bs. \<forall>c s.
           findUser (users st) (client b) = Some c
           \<and> findSession (sessions st) (session b) = Some s \<and> isEmail env (email c) \<longrightarrow>
           (\<exists>d\<in>set new. content d = CancellationNotification (bid b) \<and> recipient d = email c))"
proof (induction bs arbitrary: m)
  case Nil
  then show ?case by simp
next
  case (Cons b bs)
  let ?m1 = "snd (sendCancellationNotification env b (findSession (sessions st) (session b))
                    (findUser (users st) (client b)) m)"
  from sendCancellationNotification_log
    [of env b "findSession (sessions st) (session b)" "findUser (users st) (client b)" m]
  obtain n1 where n1: "outbox ?m1 = outbox m @ n1"
    "\<forall>d\<in>set n1. content d = CancellationNotification (bid b)"
    "\<forall>c s. findUser (users st) (client b) = Some c
        \<and> findSession (sessions st) (session b) = Some s \<and> isEmail env (email c) \<longrightarrow>
        n1 \<noteq> [] \<and> (\<forall>d\<in>set n1. recipient d = email c)"
    by blast
  from Cons.IH [of ?m1] obtain n2 where n2: "outbox (notify_cancelled env st bs ?m1) = outbox ?m1 @ n2"
    "\<forall>d\<in>set n2. \<exists>b\<in>set bs. content d = CancellationNotification (bid b)"
    "\<forall>b\<in>set bs. \<forall>c s.
           findUser (users st) (client b) = Some c
           \<and> findSession (sessions st) (session b) = Some s \<and> isEmail env (email c) \<longrightarrow>
           (\<exists>d\<in>set n2. content d = CancellationNotification (bid b) \<and> recipient d = email c)"
    by blast
  have first: "\<exists>d\<in>set (n1 @ n2). content d = CancellationNotification (bid b) \<and> recipient d = email c"
    if "findUser (users st) (client b) = Some c" "findSession (sessions st) (session b) = Some s"
      "isEmail env (email c)" for c s
  proof -
    from n1(3) that have "n1 \<noteq> []" "\<forall>d\<in>set n1. recipient d = email c" by blast+
    then obtain d where "d \<in> set n1" by (cases n1) auto
    then show ?thesis using n1(2) \<open>\<forall>d\<in>set n1. recipient d = email c\<close> by auto
  qed
  have "outbox (notify_cancelled env st (b # bs) m) = outbox m @ (n1 @ n2)"
    using n1(1) n2(1) by simp
  moreover have "\<forall>d\<in>set (n1 @ n2). \<exists>b'\<in>set (b # bs). content d = CancellationNotification (bid b')"
    using n1(2) n2(2) by auto
  moreover have "\<forall>b'\<in>set (b # bs). \<forall>c s.
           findUser (users st) (client b') = Some c
           \<and> findSession (sessions st) (session b') = Some s \<and> isEmail env (email c) \<longrightarrow>
           (\<exists>d\<in>set (n1 @ n2). content d = CancellationNotification (bid b') \<and> recipient d = email c)"
  proof (intro ballI allI impI)
    fix b' c s
    assume b': "b' \<in> set (b # bs)"
      and h: "findUser (users st) (client b') = Some c
           \<and> findSession (sessions st) (session b') = Some s \<and> isEmail env (email c)"
    show "\<exists>d\<in>set (n1 @ n2). content d = CancellationNotification (bid b') \<and> recipient d = email c"
    proof (cases "b' = b")
      case True
      then show ?thesis using first h by blast
    next
      case False
      then have "b' \<in> set bs" using b' by simp
      with n2(3) h obtain d where "d \<in> set n2"
        "content d = CancellationNotification (bid b') \<and> recipient d = email c"
        by blast
      then show ?thesis by auto
    qed
  qed
  ultimately show ?case by blast
qed

lemma deleteSessionById_distinct:
  "distinct (map sid ss) \<Longrightarrow> deleteSessionById i ss = filter (\<lambda>s. sid s \<noteq> i) ss"
proof (induction ss)
  case Nil
  then show ?case by simp
next
  case (Cons s ss)
  have "\<forall>x\<in>set ss. sid x \<noteq> sid s"
    using Cons.prems by (auto simp: image_iff)
  then have "sid s = i \<Longrightarrow> filter (\<lambda>s. sid s \<noteq> i) ss = ss"
    by (simp add: filter_id_conv)
  then show ?case using Cons by auto
qed

text \<open>
  C9. For an administrator and a well-formed id, deleting a session succeeds; the
  transport calls it adds are cancellation notifications for confirmed bookings of the
  session, at least one to the client of each confirmed booking whose client and session
  documents exist and whose address is valid; afterwards no booking of the session is
  left, of any status, the bookings of other sessions are kept, the session is gone, and
  the users, with their \<open>activeSessions\<close> and \<open>packageExpiry\<close>, are unchanged.
\<close>

theorem delete_session_cascade:
  assumes "rrole req = Admin" and "isMongoId i"
  shows "fst (delete_session env req i st m) = Inr ()
       \<and> bookings (fst (snd (delete_session env req i st m))) =
           filter (\<lambda>b. session b \<noteq> castObjectId i) (bookings st)
       \<and> (distinct (map sid (sessions st)) \<longrightarrow>
            sessions (fst (snd (delete_session env req i st m))) =
              filter (\<lambda>s. sid s \<noteq> castObjectId i) (sessions st))
       \<and> users (fst (snd (delete_session env req i st m))) = users st
       \<and> (\<exists>new. outbox (snd (snd (delete_session env req i st m))) = outbox m @ new
            \<and> (\<forall>d\<in>set new. \<exists>b\<in>set (bookings st).
                  session b = castObjectId i \<and> status b = Confirmed
                  \<and> content d = CancellationNotification (bid b))
            \<and> (\<forall>b\<in>set (bookings st). \<forall>c s.
                  session b = castObjectId i \<and> status b = Confirmed
                  \<and> findUser (users st) (client b) = Some c
                  \<and> findSession (sessions st) (session b) = Some s
                  \<and> isEmail env (email c) \<longrightarrow>
                  (\<exists>d\<in>set new. content d = CancellationNotification (bid b)
                                \<and> recipient d = email c)))"
proof -
  let ?bs = "filter (\<lambda>b. session b = castObjectId i \<and> status b = Confirmed) (bookings st)"
  have run: "delete_session env req i st m =
      (Inr (),
       st\<lparr>bookings := filter (\<lambda>b. session b \<noteq> castObjectId i) (bookings st),
          sessions := deleteSessionById (castObjectId i) (sessions st)\<rparr>,
       notify_cancelled env st ?bs m)"
    using assms by (simp add: delete_session_def Let_def)
  from notify_cancelled_log [of env st ?bs m] obtain new where new:
    "outbox (notify_cancelled env st ?bs m) = outbox m @ new"
    "\<forall>d\<in>set new. \<exists>b\<in>set ?bs. content d = CancellationNotification (bid b)"
    "\<forall>b\<in>set ?bs. \<forall>c s.
           findUser (users st) (client b) = Some c
           \<and> findSession (sessions st) (session b) = Some s \<and> isEmail env (email c) \<longrightarrow>
           (\<exists>d\<in>set new. content d = CancellationNotification (bid b) \<and> recipient d = email c)"
    by blast
  have only: "\<forall>d\<in>set new. \<exists>b\<in>set (bookings st).
                  session b = castObjectId i \<and> status b = Confirmed
                  \<and> content d = CancellationNotification (bid b)"
    using new(2) by fastforce
  have each: "\<forall>b\<in>set (bookings st). \<forall>c s.
                  session b = castObjectId i \<and> status b = Confirmed
                  \<and> findUser (users st) (client b) = Some c
                  \<and> findSession (sessions st) (session b) = Some s
                  \<and> isEmail env (email c) \<longrightarrow>
                  (\<exists>d\<in>set new. content d = CancellationNotification (bid b)
                                \<and> recipient d = email c)"
    using new(3) unfolding set_filter by blast
  show ?thesis
    unfolding run using new(1) only each by (auto simp: deleteSessionById_distinct)
qed

theorem delete_session_cascade_witness:
  "rrole as_tom = Admin \<and> isMongoId ''64A000000000000000000501''
   \<and> distinct (map sid (sessions booked))
   \<and> map isPackageBooking (bookings booked) = [True]
   \<and> map activeSessions (users booked) = [1, 0]
   \<and> delete_session smtp_up as_tom ''64A000000000000000000501'' booked no_mail =
       (Inr (),
        \<lparr>sessions = [], bookings = [], users = users booked\<rparr>,
        \<lparr>outbox = [\<lparr>recipient = ''alice@example.org'',
                     content = CancellationNotification ''64a000000000000000000b01'',
                     outcome = Inr ''msg-id''\<rparr>],
          waits = []\<rparr>)"
proof -
  have h1: "rrole as_tom = Admin" by (simp add: as_tom_def)
  have h2: "isMongoId ''64A000000000000000000501''" by (simp add: mongo_ids)
  have facts: "distinct (map sid (sessions booked))"
    "map isPackageBooking (bookings booked) = [True]"
    "map activeSessions (users booked) = [1, 0]"
    by (simp_all add: run_data)
  have run: "delete_session smtp_up as_tom ''64A000000000000000000501'' booked no_mail =
       (Inr (),
        \<lparr>sessions = [], bookings = [], users = users booked\<rparr>,
        \<lparr>outbox = [\<lparr>recipient = ''alice@example.org'',
                     content = CancellationNotification ''64a000000000000000000b01'',
                     outcome = Inr ''msg-id''\<rparr>],
          waits = []\<rparr>)"
    by (simp add: delete_session_def mongo_ids run_data run_store Let_def run_mail)
  note inst = delete_session_cascade [OF h1 h2, where env = smtp_up and st = booked
      and m = no_mail]
  show ?thesis
    using inst h1 h2 facts run by simp
qed

subsection \<open>Reminders: flags and deliveries\<close>

lemma flag_only_refl: "flag_only st st"
  by (simp add: flag_only_def list_all2_same)

lemma flag_only_trans:
  assumes "flag_only st st1" and "flag_only st1 st2"
  shows "flag_only st st2"
proof -
  let ?R = "\<lambda>b b'. b' = b \<or> b' = b\<lparr>reminderSent := True\<rparr>"
  have "list_all2 ?R (bookings st) (bookings st2)"
  proof (rule list_all2_trans)
    show "?R a b \<Longrightarrow> ?R b c \<Longrightarrow> ?R a c" for a b c :: booking by auto
    show "list_all2 ?R (bookings st) (bookings st1)" using assms(1) by (simp add: flag_only_def)
    show "list_all2 ?R (bookings st1) (bookings st2)" using assms(2) by (simp add: flag_only_def)
  qed
  then show ?thesis using assms by (simp add: flag_only_def)
qed

lemma flag_only_bids:
  "flag_only st st' \<Longrightarrow> map bid (bookings st') = map bid (bookings st)"
  unfolding flag_only_def
  by (auto simp: list_all2_conv_all_nth intro!: nth_equalityI)

lemma flag_only_mem:
  assumes "flag_only st st'" and "b' \<in> set (bookings st')"
  shows "\<exists>b\<in>set (bookings st). b' = b \<or> b' = b\<lparr>reminderSent := True\<rparr>"
proof -
  from assms(2) obtain k where k: "k < length (bookings st')" "bookings st' ! k = b'"
    by (auto simp: in_set_conv_nth)
  with assms(1) have "k < length (bookings st)"
    and "b' = bookings st ! k \<or> b' = (bookings st ! k)\<lparr>reminderSent := True\<rparr>"
    by (auto simp: flag_only_def list_all2_conv_all_nth)
  then show ?thesis using nth_mem by blast
qed

lemma flag_only_flagged:
  assumes "flag_only st st'" and "flagged st i"
  shows "flagged st' i"
proof -
  from assms(2) obtain b where b: "b \<in> set (bookings st)" "bid b = i" "reminderSent b"
    by (auto simp: flagged_def list_ex_iff)
  then obtain k where k: "k < length (bookings st)" "bookings st ! k = b"
    by (auto simp: in_set_conv_nth)
  with assms(1) have "bookings st' ! k = b \<or> bookings st' ! k = b\<lparr>reminderSent := True\<rparr>"
    and "k < length (bookings st')"
    by (auto simp: flag_only_def list_all2_conv_all_nth)
  then have "bookings st' ! k \<in> set (bookings st')" "bid (bookings st' ! k) = i"
    "reminderSent (bookings st' ! k)"
    using b by auto
  then show ?thesis unfolding flagged_def list_ex_iff by blast
qed

lemma flag_only_save: "flag_only st (save_reminderSent st b)"
  by (simp add: flag_only_def save_reminderSent_def list_all2_map2 list_all2_same)

lemma distinct_bid_eq:
  "distinct (map bid bs) \<Longrightarrow> b \<in> set bs \<Longrightarrow> b' \<in> set bs \<Longrightarrow> bid b = bid b' \<Longrightarrow> b = b'"
  by (induction bs) (auto simp: image_iff)

lemma reminders_delivered_append:
  "reminders_delivered (xs @ ys) i = reminders_delivered xs i + reminders_delivered ys i"
  by (simp add: reminders_delivered_def)

lemma reminders_delivered_pos:
  "0 < reminders_delivered xs i \<Longrightarrow> \<exists>d\<in>set xs. content d = SessionReminder i"
  unfolding reminders_delivered_def by (induction xs) (auto split: if_splits)

lemma reminders_delivered_one_kind:
  assumes "\<forall>d\<in>set xs. content d = SessionReminder j"
  shows "reminders_delivered xs i =
           (if i = j then length (filter (\<lambda>d. \<not> isl (outcome d)) xs) else 0)"
  using assms unfolding reminders_delivered_def by (induction xs) auto

lemma step_ok_refl: "step_ok E st m (st, m)"
  by (auto simp: step_ok_def flag_only_refl reminders_delivered_def flagged_def list_ex_iff)

lemma step_ok_mono:
  assumes "step_ok E st m res" and "\<And>b. E b \<Longrightarrow> E' b"
  shows "step_ok E' st m res"
  using assms unfolding step_ok_def by (cases res) (simp, blast)

lemma step_ok_trans:
  assumes dist: "distinct (map bid (bookings st))"
    and one: "step_ok E st m (st1, m1)" and two: "step_ok E st1 m1 (st2, m2)"
  shows "step_ok E st m (st2, m2)"
proof -
  from one obtain new1 where f1: "flag_only st st1" and o1: "outbox m1 = outbox m @ new1"
    and a1: "\<forall>d\<in>set new1. \<exists>b\<in>set (bookings st).
               content d = SessionReminder (bid b) \<and> E b \<and> \<not> reminderSent b"
    and b1: "\<forall>i. reminders_delivered new1 i \<le> 1
               \<and> (reminders_delivered new1 i = 1 \<longrightarrow> flagged st1 i)"
    and c1: "\<forall>b'\<in>set (bookings st1). reminderSent b' \<longrightarrow>
               flagged st (bid b') \<or> reminders_delivered new1 (bid b') = 1"
    unfolding step_ok_def by auto
  from two obtain new2 where f2: "flag_only st1 st2" and o2: "outbox m2 = outbox m1 @ new2"
    and a2: "\<forall>d\<in>set new2. \<exists>b\<in>set (bookings st1).
               content d = SessionReminder (bid b) \<and> E b \<and> \<not> reminderSent b"
    and b2: "\<forall>i. reminders_delivered new2 i \<le> 1
               \<and> (reminders_delivered new2 i = 1 \<longrightarrow> flagged st2 i)"
    and c2: "\<forall>b'\<in>set (bookings st2). reminderSent b' \<longrightarrow>
               flagged st1 (bid b') \<or> reminders_delivered new2 (bid b') = 1"
    unfolding step_ok_def by auto
  have dist1: "distinct (map bid (bookings st1))"
    using dist flag_only_bids [OF f1] by simp
  have quiet: "reminders_delivered new2 i = 0" if "flagged st1 i" for i
  proof (rule ccontr)
    assume "reminders_delivered new2 i \<noteq> 0"
    then obtain d where "d \<in> set new2" "content d = SessionReminder i"
      using reminders_delivered_pos [of new2 i] by auto
    with a2 obtain b where b: "b \<in> set (bookings st1)" "bid b = i" "\<not> reminderSent b"
      by force
    from that obtain b' where b': "b' \<in> set (bookings st1)" "bid b' = i" "reminderSent b'"
      by (auto simp: flagged_def list_ex_iff)
    from distinct_bid_eq [OF dist1 b(1) b'(1)] b b' show False by auto
  qed
  have a: "\<forall>d\<in>set (new1 @ new2). \<exists>b\<in>set (bookings st).
               content d = SessionReminder (bid b) \<and> E b \<and> \<not> reminderSent b"
  proof
    fix d assume "d \<in> set (new1 @ new2)"
    then consider "d \<in> set new1" | "d \<in> set new2" by auto
    then show "\<exists>b\<in>set (bookings st). content d = SessionReminder (bid b) \<and> E b \<and> \<not> reminderSent b"
    proof cases
      case 1
      then show ?thesis using a1 by blast
    next
      case 2
      with a2 obtain b1 where b1: "b1 \<in> set (bookings st1)"
        "content d = SessionReminder (bid b1)" "E b1" "\<not> reminderSent b1"
        by blast
      from flag_only_mem [OF f1 b1(1)] b1(4) have "b1 \<in> set (bookings st)" by auto
      then show ?thesis using b1 by blast
    qed
  qed
  have b: "reminders_delivered (new1 @ new2) i \<le> 1
        \<and> (reminders_delivered (new1 @ new2) i = 1 \<longrightarrow> flagged st2 i)" for i
  proof (cases "reminders_delivered new1 i = 0")
    case True
    then show ?thesis using b2 by (simp add: reminders_delivered_append)
  next
    case False
    then have one: "reminders_delivered new1 i = 1" using b1 [rule_format, of i] by simp
    then have fl: "flagged st1 i" using b1 by blast
    then show ?thesis
      using one quiet [OF fl] flag_only_flagged [OF f2 fl] by (simp add: reminders_delivered_append)
  qed
  have c: "flagged st (bid b') \<or> reminders_delivered (new1 @ new2) (bid b') = 1"
    if "b' \<in> set (bookings st2)" "reminderSent b'" for b'
  proof -
    from c2 that consider "flagged st1 (bid b')" | "reminders_delivered new2 (bid b') = 1"
      by blast
    then show ?thesis
    proof cases
      case 1
      then obtain x where x: "x \<in> set (bookings st1)" "bid x = bid b'" "reminderSent x"
        by (auto simp: flagged_def list_ex_iff)
      with c1 have "flagged st (bid b') \<or> reminders_delivered new1 (bid b') = 1" by force
      then show ?thesis
        using quiet [OF 1] by (auto simp: reminders_delivered_append)
    next
      case 2
      then have "reminders_delivered new1 (bid b') = 0"
        using b [of "bid b'"] by (simp add: reminders_delivered_append)
      then show ?thesis using 2 by (simp add: reminders_delivered_append)
    qed
  qed
  show ?thesis
    unfolding step_ok_def prod.case
  proof (intro conjI exI [of _ "new1 @ new2"])
    show "flag_only st st2" by (rule flag_only_trans [OF f1 f2])
    show "outbox m2 = outbox m @ new1 @ new2" using o1 o2 by simp
    show "\<forall>d\<in>set (new1 @ new2). \<exists>b\<in>set (bookings st).
            content d = SessionReminder (bid b) \<and> E b \<and> \<not> reminderSent b"
      by (rule a)
    show "\<forall>i. reminders_delivered (new1 @ new2) i \<le> 1
            \<and> (reminders_delivered (new1 @ new2) i = 1 \<longrightarrow> flagged st2 i)"
      using b by blast
    show "\<forall>b'\<in>set (bookings st2). reminderSent b' \<longrightarrow>
            flagged st (bid b') \<or> reminders_delivered (new1 @ new2) (bid b') = 1"
      using c by blast
  qed
qed

lemma mem_save_reminderSent:
  "b' \<in> set (bookings (save_reminderSent st b)) \<longleftrightarrow>
     (\<exists>x\<in>set (bookings st). b' = (if bid x = bid b then x\<lparr>reminderSent := True\<rparr> else x))"
  by (auto simp: save_reminderSent_def)

lemma save_reminderSent_twice:
  "save_reminderSent (save_reminderSent st b) b = save_reminderSent st b"
  by (simp add: save_reminderSent_def comp_def cong: map_cong)

lemma step_ok_quiet:
  assumes "outbox m' = outbox m @ new"
    and "\<forall>d\<in>set new. content d = SessionReminder (bid b)"
    and "length (filter (\<lambda>d. \<not> isl (outcome d)) new) = 0"
    and "b \<in> set (bookings st)" and "E b" and "\<not> reminderSent b"
  shows "step_ok E st m (st, m')"
  unfolding step_ok_def prod.case
proof (intro conjI exI [of _ new])
  show "flag_only st st" by (rule flag_only_refl)
  show "outbox m' = outbox m @ new" by (rule assms(1))
  show "\<forall>d\<in>set new. \<exists>b\<in>set (bookings st).
          content d = SessionReminder (bid b) \<and> E b \<and> \<not> reminderSent b"
    using assms(2,4,5,6) by blast
  have "reminders_delivered new i = 0" for i
    using assms(3) by (simp add: reminders_delivered_one_kind [OF assms(2)])
  then show "\<forall>i. reminders_delivered new i \<le> 1 \<and> (reminders_delivered new i = 1 \<longrightarrow> flagged st i)"
    by simp
  show "\<forall>b'\<in>set (bookings st). reminderSent b' \<longrightarrow>
          flagged st (bid b') \<or> reminders_delivered new (bid b') = 1"
    by (auto simp: flagged_def list_ex_iff)
qed

lemma step_ok_delivered:
  assumes "outbox m' = outbox m @ new"
    and "\<forall>d\<in>set new. content d = SessionReminder (bid b)"
    and "length (filter (\<lambda>d. \<not> isl (outcome d)) new) = 1"
    and "b \<in> set (bookings st)" and "E b" and "\<not> reminderSent b"
  shows "step_ok E st m (save_reminderSent st b, m')"
  unfolding step_ok_def prod.case
proof (intro conjI exI [of _ new])
  show "flag_only st (save_reminderSent st b)" by (rule flag_only_save)
  show "outbox m' = outbox m @ new" by (rule assms(1))
  show "\<forall>d\<in>set new. \<exists>b\<in>set (bookings st).
          content d = SessionReminder (bid b) \<and> E b \<and> \<not> reminderSent b"
    using assms(2,4,5,6) by blast
  have count: "reminders_delivered new i = (if i = bid b then 1 else 0)" for i
    using assms(3) by (simp add: reminders_delivered_one_kind [OF assms(2)])
  have "b\<lparr>reminderSent := True\<rparr> \<in> set (bookings (save_reminderSent st b))"
    using assms(4) by (auto simp: mem_save_reminderSent intro: bexI [of _ b])
  then have "flagged (save_reminderSent st b) (bid b)"
    unfolding flagged_def list_ex_iff by (rule bexI [rotated]) simp
  then show "\<forall>i. reminders_delivered new i \<le> 1
      \<and> (reminders_delivered new i = 1 \<longrightarrow> flagged (save_reminderSent st b) i)"
    by (simp add: count)
  show "\<forall>b'\<in>set (bookings (save_reminderSent st b)). reminderSent b' \<longrightarrow>
          flagged st (bid b') \<or> reminders_delivered new (bid b') = 1"
  proof (intro ballI impI)
    fix b'
    assume "b' \<in> set (bookings (save_reminderSent st b))" and sent: "reminderSent b'"
    then obtain x where x: "x \<in> set (bookings st)"
      "b' = (if bid x = bid b then x\<lparr>reminderSent := True\<rparr> else x)"
      unfolding mem_save_reminderSent by blast
    show "flagged st (bid b') \<or> reminders_delivered new (bid b') = 1"
    proof (cases "bid x = bid b")
      case True
      then show ?thesis using x(2) by (simp add: count)
    next
      case False
      then have "x \<in> set (bookings st) \<and> bid x = bid b' \<and> reminderSent x"
        using x sent by simp
      then show ?thesis unfolding flagged_def list_ex_iff by blast
    qed
  qed
qed

text \<open>One booking of the loop: the dispatch and the scheduler's own save.\<close>

lemma dispatch_ok:
  assumes "b \<in> set (bookings st)" and "E b" and "\<not> reminderSent b"
    and "sendSessionReminder env b s cl st m = (r, st1, m1)"
  shows "step_ok E st m (if success r then save_reminderSent st1 b else st1, m1)"
proof (cases cl)
  case None
  then have "r = Failed (exn_message TypeError)" "st1 = st" "m1 = m"
    using assms(3,4) by (simp_all add: sendSessionReminder_def)
  then show ?thesis by (simp add: success_def step_ok_refl)
next
  case (Some c)
  obtain x m' where send:
    "sendEmail env (email c) (SessionReminder (bid b)) default_maxRetries m = (x, m')"
    by (cases "sendEmail env (email c) (SessionReminder (bid b)) default_maxRetries m")
  from sendEmail_log [of env "email c" "SessionReminder (bid b)" m] send
  obtain new where new: "outbox m' = outbox m @ new"
    "\<forall>d\<in>set new. content d = SessionReminder (bid b)"
    "length (filter (\<lambda>d. \<not> isl (outcome d)) new) = (case x of Inr (Sent y) \<Rightarrow> 1 | _ \<Rightarrow> 0)"
    "\<forall>y. x \<noteq> Inr (Noted y)"
    by auto
  show ?thesis
  proof (cases x)
    case (Inl e)
    then have "r = Failed (exn_message e)" "st1 = st" "m1 = m'"
      using assms(3,4) Some send by (simp_all add: sendSessionReminder_def)
    moreover have "step_ok E st m (st, m')"
      using new(1,2) new(3) Inl assms(1,2,3) by (intro step_ok_quiet [of m' m new b]) simp_all
    ultimately show ?thesis by (simp add: success_def)
  next
    case (Inr res)
    show ?thesis
    proof (cases res)
      case (Sent y)
      then have "r = Sent y" "st1 = save_reminderSent st b" "m1 = m'"
        using assms(3,4) Some send Inr by (simp_all add: sendSessionReminder_def success_def)
      moreover have "step_ok E st m (save_reminderSent st b, m')"
        using new(1,2) new(3) Inr Sent assms(1,2,3)
        by (intro step_ok_delivered [of m' m new b]) simp_all
      ultimately show ?thesis by (simp add: success_def save_reminderSent_twice)
    next
      case (Noted y)
      then show ?thesis using new(4) Inr by simp
    next
      case (Failed e)
      then have "r = Failed e" "st1 = st" "m1 = m'"
        using assms(3,4) Some send Inr by (simp_all add: sendSessionReminder_def success_def)
      moreover have "step_ok E st m (st, m')"
        using new(1,2) new(3) Inr Failed assms(1,2,3)
        by (intro step_ok_quiet [of m' m new b]) simp_all
      ultimately show ?thesis by (simp add: success_def)
    qed
  qed
qed

lemma step_ok_store:
  assumes "step_ok E st m (st', m')" and "distinct (map bid (bookings st))"
  shows "distinct (map bid (bookings st'))" and "sessions st' = sessions st"
    and "users st' = users st"
  using assms flag_only_bids [of st st'] by (auto simp: step_ok_def flag_only_def)

lemma sendSessionReminder_store:
  "sendSessionReminder env b s cl st m = (r, st1, m1) \<Longrightarrow>
   st1 = st \<or> st1 = save_reminderSent st b"
  by (auto simp: sendSessionReminder_def split: if_splits option.splits prod.splits sum.splits)

lemma process_bookings_ok:
  assumes "distinct (map bid (bookings st))"
    and "\<forall>p\<in>set bs. fst p \<in> set (bookings st) \<and> E (fst p) \<and> \<not> reminderSent (fst p)"
    and "distinct (map (\<lambda>p. bid (fst p)) bs)"
  shows "step_ok E st m (process_bookings env s bs st m)"
  using assms
proof (induction bs arbitrary: st m)
  case Nil
  then show ?case by (simp add: step_ok_refl)
next
  case (Cons p rest)
  obtain b cl where p: "p = (b, cl)" by (cases p)
  obtain r st1 m1 where send: "sendSessionReminder env b s cl st m = (r, st1, m1)"
    by (cases "sendSessionReminder env b s cl st m")
  let ?st2 = "if success r then save_reminderSent st1 b else st1"
  have b: "b \<in> set (bookings st)" "E b" "\<not> reminderSent b"
    using Cons.prems(2) p by auto
  have d: "step_ok E st m (?st2, m1)"
    by (rule dispatch_ok [where E = E, OF b send])
  show ?case
  proof (cases cl)
    case None
    then have "\<not> success r" "st1 = st" "m1 = m"
      using send b(3) by (auto simp: sendSessionReminder_def success_def)
    then show ?thesis using p None send by (simp add: step_ok_refl)
  next
    case (Some c)
    have run: "process_bookings env s (p # rest) st m = process_bookings env s rest ?st2 m1"
      using p Some send by simp
    obtain st3 m3 where res: "process_bookings env s rest ?st2 m1 = (st3, m3)"
      by (cases "process_bookings env s rest ?st2 m1")
    have dist2: "distinct (map bid (bookings ?st2))"
      by (rule step_ok_store(1) [OF d Cons.prems(1)])
    have alt: "?st2 = st \<or> ?st2 = save_reminderSent st b"
      using sendSessionReminder_store [OF send] by (auto simp: save_reminderSent_twice)
    have rest: "\<forall>q\<in>set rest. fst q \<in> set (bookings ?st2) \<and> E (fst q) \<and> \<not> reminderSent (fst q)"
    proof
      fix q assume q: "q \<in> set rest"
      then have old: "fst q \<in> set (bookings st)" "E (fst q)" "\<not> reminderSent (fst q)"
        using Cons.prems(2) by auto
      have "bid (fst q) \<noteq> bid b"
        using Cons.prems(3) q p by (auto simp: image_iff)
      then have "fst q \<in> set (bookings (save_reminderSent st b))"
        using old(1) unfolding mem_save_reminderSent by (intro bexI [of _ "fst q"]) auto
      then have "fst q \<in> set (bookings ?st2)" using alt old(1) by metis
      then show "fst q \<in> set (bookings ?st2) \<and> E (fst q) \<and> \<not> reminderSent (fst q)"
        using old by simp
    qed
    have "distinct (map (\<lambda>p. bid (fst p)) rest)" using Cons.prems(3) by simp
    from Cons.IH [OF dist2 rest this, where m = m1] res
    have "step_ok E ?st2 m1 (st3, m3)" by simp
    from step_ok_trans [OF Cons.prems(1) d this] show ?thesis
      by (simp add: run res)
  qed
qed

lemma remind_session_ok:
  assumes "distinct (map bid (bookings st))"
    and "\<forall>b. session b = sid s \<and> status b = Confirmed \<and> in_window tz now s \<longrightarrow> E b"
  shows "step_ok E st m (remind_session tz env (startWindow now) (endWindow now) s st m)"
proof (cases "in_window tz now s")
  case False
  then have "remind_session tz env (startWindow now) (endWindow now) s st m = (st, m)"
    by (auto simp: remind_session_def in_window_def Let_def split: option.splits)
  then show ?thesis by (simp add: step_ok_refl)
next
  case True
  let ?bs = "filter (\<lambda>b. session b = sid s \<and> status b = Confirmed \<and> reminderSent b \<noteq> True)
               (bookings st)"
  let ?ps = "map (\<lambda>b. (b, findUser (users st) (client b))) ?bs"
  have run: "remind_session tz env (startWindow now) (endWindow now) s st m =
      process_bookings env s ?ps st m"
    using True by (auto simp: remind_session_def in_window_def Let_def split: option.splits)
  have each: "\<forall>p\<in>set ?ps. fst p \<in> set (bookings st) \<and> E (fst p) \<and> \<not> reminderSent (fst p)"
    using assms(2) True by auto
  have "distinct (map bid ?bs)" using assms(1) by (rule distinct_map_filter)
  then have "distinct (map (\<lambda>p. bid (fst p)) ?ps)" by (simp add: comp_def)
  from process_bookings_ok [OF assms(1) each this] show ?thesis
    by (simp only: run)
qed

lemma process_sessions_ok:
  assumes "distinct (map bid (bookings st))"
    and "\<forall>s\<in>set ss. \<forall>b. session b = sid s \<and> status b = Confirmed \<and> in_window tz now s \<longrightarrow> E b"
  shows "step_ok E st m (process_sessions tz env (startWindow now) (endWindow now) ss st m)"
  using assms
proof (induction ss arbitrary: st m)
  case Nil
  then show ?case by (simp add: step_ok_refl)
next
  case (Cons s ss)
  obtain st1 m1 where one: "remind_session tz env (startWindow now) (endWindow now) s st m = (st1, m1)"
    by (cases "remind_session tz env (startWindow now) (endWindow now) s st m")
  obtain st2 m2 where two:
    "process_sessions tz env (startWindow now) (endWindow now) ss st1 m1 = (st2, m2)"
    by (cases "process_sessions tz env (startWindow now) (endWindow now) ss st1 m1")
  have "\<forall>b. session b = sid s \<and> status b = Confirmed \<and> in_window tz now s \<longrightarrow> E b"
    using Cons.prems(2) by simp
  from remind_session_ok [OF Cons.prems(1) this, where env = env and m = m] one
  have d: "step_ok E st m (st1, m1)" by simp
  have dist1: "distinct (map bid (bookings st1))"
    by (rule step_ok_store(1) [OF d Cons.prems(1)])
  have "\<forall>s\<in>set ss. \<forall>b. session b = sid s \<and> status b = Confirmed \<and> in_window tz now s \<longrightarrow> E b"
    using Cons.prems(2) by simp
  from Cons.IH [OF dist1 this, where m = m1] two
  have "step_ok E st1 m1 (st2, m2)" by simp
  from step_ok_trans [OF Cons.prems(1) d this] show ?case
    by (simp add: one two)
qed

lemma tick_ok:
  assumes "distinct (map bid (bookings st))"
  shows "step_ok (due tz now st) st m (sendSessionReminders tz env now st m)"
proof -
  let ?up = "filter (\<lambda>s. date s \<ge> localMidnight tz (startWindow now)
                       \<and> date s \<le> localMidnight tz (endWindow now) \<and> isActive s) (sessions st)"
  have "\<forall>s\<in>set ?up. \<forall>b. session b = sid s \<and> status b = Confirmed \<and> in_window tz now s
          \<longrightarrow> due tz now st b"
    by (auto simp: due_def list_ex_iff)
  from process_sessions_ok [OF assms this] show ?thesis
    by (simp add: sendSessionReminders_def Let_def)
qed

lemma run_ticks_ok:
  assumes "distinct (map bid (bookings st))"
  shows "step_ok (\<lambda>b. True) st m (run_ticks tz env nows st m)"
  using assms
proof (induction nows arbitrary: st m)
  case Nil
  then show ?case by (simp add: step_ok_refl)
next
  case (Cons now nows)
  obtain st1 m1 where one: "sendSessionReminders tz env now st m = (st1, m1)"
    by (cases "sendSessionReminders tz env now st m")
  obtain st2 m2 where two: "run_ticks tz env nows st1 m1 = (st2, m2)"
    by (cases "run_ticks tz env nows st1 m1")
  from tick_ok [OF Cons.prems, where tz = tz and now = now and m = m and env = env] one
  have "step_ok (due tz now st) st m (st1, m1)" by simp
  then have d: "step_ok (\<lambda>b. True) st m (st1, m1)" by (rule step_ok_mono) simp
  have dist1: "distinct (map bid (bookings st1))"
    by (rule step_ok_store(1) [OF d Cons.prems])
  from Cons.IH [OF dist1, where m = m1] two have "step_ok (\<lambda>b. True) st1 m1 (st2, m2)" by simp
  from step_ok_trans [OF Cons.prems d this] show ?case
    by (simp add: one two)
qed

text \<open>
  C5. In a store whose bookings have distinct ids, one tick at \<open>now\<close> only calls the
  transport with a reminder for a stored booking that is confirmed, has
  \<open>reminderSent\<close> not true, and whose session is active and starts within
  \<open>[now + 2h - 7min, now + 2h + 8min]\<close>; a booking whose flag is true after the tick
  had it before or got a successful delivery in this tick, and a successful delivery
  leaves the flag true. Over any sequence of ticks, a booking whose flag is true gets
  no further transport call, and no booking gets more than one successful delivery.
\<close>

theorem reminder_at_most_once:
  assumes "distinct (map bid (bookings st))"
  shows "(case sendSessionReminders tz env now st m of
            (st', m') \<Rightarrow>
              (\<exists>new. outbox m' = outbox m @ new
                 \<and> (\<forall>d\<in>set new. \<exists>b\<in>set (bookings st).
                       content d = SessionReminder (bid b) \<and> \<not> reminderSent b
                       \<and> due tz now st b)
                 \<and> (\<forall>b'\<in>set (bookings st'). reminderSent b' \<longrightarrow>
                       flagged st (bid b') \<or> reminders_delivered new (bid b') = 1)
                 \<and> (\<forall>i. reminders_delivered new i = 1 \<longrightarrow> flagged st' i)))
       \<and> (\<forall>b\<in>set (bookings st). reminderSent b \<longrightarrow>
             (\<forall>d\<in>set (drop (length (outbox m)) (outbox (snd (run_ticks tz env nows st m)))).
                content d \<noteq> SessionReminder (bid b)))
       \<and> (\<forall>i. reminders_delivered
                 (drop (length (outbox m)) (outbox (snd (run_ticks tz env nows st m)))) i \<le> 1)"
proof -
  obtain st1 m1 where tick: "sendSessionReminders tz env now st m = (st1, m1)"
    by (cases "sendSessionReminders tz env now st m")
  from tick_ok [OF assms, where tz = tz and now = now and m = m and env = env] tick
  obtain new1 where n1: "outbox m1 = outbox m @ new1"
    "\<forall>d\<in>set new1. \<exists>b\<in>set (bookings st).
       content d = SessionReminder (bid b) \<and> due tz now st b \<and> \<not> reminderSent b"
    "\<forall>i. reminders_delivered new1 i \<le> 1 \<and> (reminders_delivered new1 i = 1 \<longrightarrow> flagged st1 i)"
    "\<forall>b'\<in>set (bookings st1). reminderSent b' \<longrightarrow>
       flagged st (bid b') \<or> reminders_delivered new1 (bid b') = 1"
    unfolding step_ok_def by auto
  have one: "\<exists>new. outbox m1 = outbox m @ new
                 \<and> (\<forall>d\<in>set new. \<exists>b\<in>set (bookings st).
                       content d = SessionReminder (bid b) \<and> \<not> reminderSent b
                       \<and> due tz now st b)
                 \<and> (\<forall>b'\<in>set (bookings st1). reminderSent b' \<longrightarrow>
                       flagged st (bid b') \<or> reminders_delivered new (bid b') = 1)
                 \<and> (\<forall>i. reminders_delivered new i = 1 \<longrightarrow> flagged st1 i)"
    using n1 by (intro exI [of _ new1] conjI) blast+
  obtain st2 m2 where run: "run_ticks tz env nows st m = (st2, m2)"
    by (cases "run_ticks tz env nows st m")
  from run_ticks_ok [OF assms, where tz = tz and nows = nows and m = m and env = env] run
  obtain new where new: "outbox m2 = outbox m @ new"
    "\<forall>d\<in>set new. \<exists>b\<in>set (bookings st). content d = SessionReminder (bid b) \<and> \<not> reminderSent b"
    "\<forall>i. reminders_delivered new i \<le> 1"
    unfolding step_ok_def by auto
  have drop: "drop (length (outbox m)) (outbox (snd (run_ticks tz env nows st m))) = new"
    using new(1) run by simp
  have quiet: "content d \<noteq> SessionReminder (bid b)"
    if "b \<in> set (bookings st)" "reminderSent b" "d \<in> set new" for b d
  proof
    assume "content d = SessionReminder (bid b)"
    with new(2) that(3) obtain b0 where b0: "b0 \<in> set (bookings st)" "bid b0 = bid b"
      "\<not> reminderSent b0"
      by force
    from distinct_bid_eq [OF assms b0(1) that(1) b0(2)] b0(3) that(2) show False by simp
  qed
  show ?thesis
    unfolding drop tick prod.case using one quiet new(3) by blast
qed

lemmas run_tick = sendSessionReminders_def remind_session_def startWindow_def endWindow_def
  save_reminderSent_def Let_def

lemma tick_delivers:
  "sendSessionReminders 0 smtp_up 1718035020000 booked no_mail =
     (booked\<lparr>bookings := [alice_booking\<lparr>reminderSent := True\<rparr>]\<rparr>,
      \<lparr>outbox = [\<lparr>recipient = ''alice@example.org'',
                   content = SessionReminder ''64a000000000000000000b01'',
                   outcome = Inr ''msg-id''\<rparr>],
        waits = []\<rparr>)"
  by (simp add: run_tick run_data run_store run_deadline run_mail)

lemma tick_after_delivery:
  "sendSessionReminders 0 smtp_up 1718035080000
     (booked\<lparr>bookings := [alice_booking\<lparr>reminderSent := True\<rparr>]\<rparr>) m =
     (booked\<lparr>bookings := [alice_booking\<lparr>reminderSent := True\<rparr>]\<rparr>, m)"
  by (simp add: run_tick run_data run_store run_deadline run_mail)

lemma tick_transport_down:
  "sendSessionReminders 0 smtp_down 1718035020000 booked no_mail =
     (booked,
      \<lparr>outbox = [\<lparr>recipient = ''alice@example.org'',
                   content = SessionReminder ''64a000000000000000000b01'',
                   outcome = Inl ''ECONNREFUSED''\<rparr>,
                 \<lparr>recipient = ''alice@example.org'',
                   content = SessionReminder ''64a000000000000000000b01'',
                   outcome = Inl ''ECONNREFUSED''\<rparr>,
                 \<lparr>recipient = ''alice@example.org'',
                   content = SessionReminder ''64a000000000000000000b01'',
                   outcome = Inl ''ECONNREFUSED''\<rparr>],
        waits = [2000, 4000]\<rparr>)"
  by (simp add: run_tick run_data run_store run_deadline run_mail)

lemma tick_too_early:
  "sendSessionReminders 0 smtp_up 1717200000000 booked no_mail = (booked, no_mail)"
  by (simp add: run_tick run_data run_store run_deadline run_mail)

theorem reminder_at_most_once_witness:
  "distinct (map bid (bookings booked))
   \<and> due 0 1718035020000 booked alice_booking \<and> \<not> reminderSent alice_booking
   \<and> sendSessionReminders 0 smtp_up 1718035020000 booked no_mail =
       (booked\<lparr>bookings := [alice_booking\<lparr>reminderSent := True\<rparr>]\<rparr>,
        \<lparr>outbox = [\<lparr>recipient = ''alice@example.org'',
                     content = SessionReminder ''64a000000000000000000b01'',
                     outcome = Inr ''msg-id''\<rparr>],
          waits = []\<rparr>)
   \<and> run_ticks 0 smtp_up [1718035020000, 1718035080000] booked no_mail =
       (booked\<lparr>bookings := [alice_booking\<lparr>reminderSent := True\<rparr>]\<rparr>,
        \<lparr>outbox = [\<lparr>recipient = ''alice@example.org'',
                     content = SessionReminder ''64a000000000000000000b01'',
                     outcome = Inr ''msg-id''\<rparr>],
          waits = []\<rparr>)
   \<and> reminders_delivered (drop (length (outbox no_mail)) (outbox (snd
        (run_ticks 0 smtp_up [1718035020000, 1718035080000] booked no_mail))))
        ''64a000000000000000000b01'' = 1
   \<and> map reminderSent (bookings (fst
        (sendSessionReminders 0 smtp_down 1718035020000 booked no_mail))) = [False]
   \<and> map outcome (outbox (snd
        (sendSessionReminders 0 smtp_down 1718035020000 booked no_mail))) =
       [Inl ''ECONNREFUSED'', Inl ''ECONNREFUSED'', Inl ''ECONNREFUSED'']
   \<and> sendSessionReminders 0 smtp_up 1717200000000 booked no_mail = (booked, no_mail)"
proof -
  have dist: "distinct (map bid (bookings booked))" by (simp add: booked_def)
  have due: "due 0 1718035020000 booked alice_booking" "\<not> reminderSent alice_booking"
    by (simp_all add: due_def in_window_def startWindow_def endWindow_def run_data run_deadline)
  have run: "run_ticks 0 smtp_up [1718035020000, 1718035080000] booked no_mail =
       (booked\<lparr>bookings := [alice_booking\<lparr>reminderSent := True\<rparr>]\<rparr>,
        \<lparr>outbox = [\<lparr>recipient = ''alice@example.org'',
                     content = SessionReminder ''64a000000000000000000b01'',
                     outcome = Inr ''msg-id''\<rparr>],
          waits = []\<rparr>)"
    by (simp add: tick_delivers tick_after_delivery)
  have count: "reminders_delivered
      [\<lparr>recipient = ''alice@example.org'',
        content = SessionReminder ''64a000000000000000000b01'', outcome = Inr ''msg-id''\<rparr>]
      ''64a000000000000000000b01'' = 1" "outbox no_mail = []"
    by (simp_all add: reminders_delivered_def no_mail_def)
  have unsent: "map reminderSent (bookings booked) = [False]"
    by (simp add: booked_def alice_booking_def)
  note inst = reminder_at_most_once [OF dist, where tz = 0 and env = smtp_up
      and now = 1718035020000 and m = no_mail and nows = "[1718035020000, 1718035080000]"]
  show ?thesis
    using inst dist due run count unsent
    by (simp add: tick_delivers tick_transport_down tick_too_early)
qed

end
